theory Spec2Isabelle
  imports Complex_Main "HOL-Library.Log_Nat"
begin

section \<open>JavaScript numbers\<close>

text \<open>
  A JavaScript number is an IEEE 754 double. A finite double is identified with the
  rational number it denotes, and every arithmetic operation of the source is the
  exact operation followed by rounding to the nearest double, ties to the even
  significand. \<open>nearest_double\<close> rounds to 53 significant bits (fewer below
  \<open>2^-1022\<close>, where doubles are subnormal); \<open>to_double\<close> adds the overflow to
  \<open>Infinity\<close> from \<open>2^1024\<close> on, which is \<open>None\<close>.
\<close>

definition pow2 :: "int \<Rightarrow> rat" where
  "pow2 k = (if 0 \<le> k then 2 ^ nat k else 1 / 2 ^ nat (- k))"

definition round_half_even :: "rat \<Rightarrow> int" where
  "round_half_even x =
     (let f = \<lfloor>x\<rfloor>; d = x - of_int f
      in if d < 1 / 2 then f
         else if 1 / 2 < d then f + 1
         else if even f then f else f + 1)"

text \<open>For a positive \<open>x\<close>, the \<open>k\<close> with \<open>2^k \<le> x < 2^(k+1)\<close>.\<close>

definition binary_exponent :: "rat \<Rightarrow> int" where
  "binary_exponent x =
     (case quotient_of x of
        (p, q) \<Rightarrow>
          (let e0 = bitlen p - bitlen q
           in if pow2 e0 \<le> x then e0 else e0 - 1))"

definition nearest_double :: "rat \<Rightarrow> rat" where
  "nearest_double x =
     (if x = 0 then 0
      else (let a = \<bar>x\<bar>;
                e = max (binary_exponent a) (- 1022);
                ulp = pow2 (e - 52)
            in sgn x * of_int (round_half_even (a / ulp)) * ulp))"

definition to_double :: "rat \<Rightarrow> rat option" where
  "to_double x =
     (let r = nearest_double x
      in if pow2 1024 \<le> \<bar>r\<bar> then None else Some r)"

text \<open>
  The double nearest to an integer. Every integer up to \<open>2^53\<close> in magnitude is a
  double; beyond, the doubles are integers that are spaced by two or more.
\<close>

definition round_int :: "int \<Rightarrow> int option" where
  "round_int n =
     (if \<bar>n\<bar> \<le> 2 ^ 53 then Some n
      else map_option floor (to_double (of_int n)))"

text \<open>
  A number where the source tells \<open>NaN\<close> from the rest (\<open>isNaN\<close>). Elsewhere a number
  is an \<open>option\<close>: \<open>Some\<close> of a finite double, \<open>None\<close> for a number that is not finite
  (\<open>NaN\<close>, \<open>Infinity\<close>, \<open>-Infinity\<close>).
\<close>

datatype 'a number = NaN | Infinite | Finite 'a

definition finite_part :: "'a number \<Rightarrow> 'a option" where
  "finite_part x = (case x of Finite a \<Rightarrow> Some a | _ \<Rightarrow> None)"

text \<open>\<open>amount * k\<close> and \<open>amount / k\<close> on doubles, for a finite positive constant \<open>k\<close>.\<close>

definition times :: "int number \<Rightarrow> int \<Rightarrow> int option" where
  "times amount k = (case amount of Finite a \<Rightarrow> round_int (a * k) | _ \<Rightarrow> None)"

definition divided_by :: "int number \<Rightarrow> rat \<Rightarrow> rat option" where
  "divided_by amount k = (case amount of Finite a \<Rightarrow> to_double (of_int a / k) | _ \<Rightarrow> None)"

section \<open>Duration strings (common/utils/time.util.ts)\<close>

text \<open>
  A string is the list of the bytes of its UTF-8 encoding; the characters that the
  parsers look for are ASCII, one byte each.
\<close>

definition is_digit :: "char \<Rightarrow> bool" where
  "is_digit c = (c \<in> set ''0123456789'')"

definition is_unit_char :: "char \<Rightarrow> bool" where
  "is_unit_char c = (c \<in> set ''smhd'')"

text \<open>
  The white space that \<open>parseInt\<close> skips: TAB, LF, VT, FF, CR, SP, and in UTF-8 the
  characters U+00A0, U+1680, U+2000 to U+200A, U+2028, U+2029, U+202F, U+205F,
  U+3000 and U+FEFF.
\<close>

definition white_space :: "string list" where
  "white_space =
     [[CHR 0x09], [CHR 0x0A], [CHR 0x0B], [CHR 0x0C], [CHR 0x0D], [CHR 0x20],
      [CHR 0xC2, CHR 0xA0],
      [CHR 0xE1, CHR 0x9A, CHR 0x80],
      [CHR 0xE2, CHR 0x80, CHR 0x80], [CHR 0xE2, CHR 0x80, CHR 0x81],
      [CHR 0xE2, CHR 0x80, CHR 0x82], [CHR 0xE2, CHR 0x80, CHR 0x83],
      [CHR 0xE2, CHR 0x80, CHR 0x84], [CHR 0xE2, CHR 0x80, CHR 0x85],
      [CHR 0xE2, CHR 0x80, CHR 0x86], [CHR 0xE2, CHR 0x80, CHR 0x87],
      [CHR 0xE2, CHR 0x80, CHR 0x88], [CHR 0xE2, CHR 0x80, CHR 0x89],
      [CHR 0xE2, CHR 0x80, CHR 0x8A],
      [CHR 0xE2, CHR 0x80, CHR 0xA8], [CHR 0xE2, CHR 0x80, CHR 0xA9],
      [CHR 0xE2, CHR 0x80, CHR 0xAF],
      [CHR 0xE2, CHR 0x81, CHR 0x9F],
      [CHR 0xE3, CHR 0x80, CHR 0x80],
      [CHR 0xEF, CHR 0xBB, CHR 0xBF]]"

definition leading_space :: "string \<Rightarrow> nat" where
  "leading_space s =
     (case find (\<lambda>ws. take (length ws) s = ws) white_space of
        None \<Rightarrow> 0
      | Some ws \<Rightarrow> length ws)"

function skip_space :: "string \<Rightarrow> string" where
  "skip_space s =
     (if leading_space s = 0 \<or> s = [] then s
      else skip_space (drop (leading_space s) s))"
  by pat_completeness auto
termination
  by (relation "measure length") auto

definition digit_val :: "char \<Rightarrow> int" where
  "digit_val c = int (of_char c) - 48"

text \<open>
  \<open>parseInt(value, 10)\<close>: leading white space is skipped, one sign is read, then the
  longest run of decimal digits; what follows is ignored. No digit gives \<open>NaN\<close>.
  The integer that the digits denote is rounded to the nearest double, as Node does
  (the language leaves the digits after the twentieth to the implementation).
\<close>

definition parse_digits :: "string \<Rightarrow> int option" where
  "parse_digits s =
     (let ds = takeWhile is_digit s
      in if ds = [] then None else Some (foldl (\<lambda>a c. 10 * a + digit_val c) 0 ds))"

definition as_number :: "bool \<Rightarrow> int option \<Rightarrow> int number" where
  "as_number negative mathInt =
     (case mathInt of
        None \<Rightarrow> NaN
      | Some n \<Rightarrow>
          (case round_int n of
             None \<Rightarrow> Infinite
           | Some m \<Rightarrow> Finite (if negative then - m else m)))"

definition parseInt :: "string \<Rightarrow> int number" where
  "parseInt v =
     (case skip_space v of
        [] \<Rightarrow> NaN
      | c # cs \<Rightarrow>
          if c = CHR ''-'' then as_number True (parse_digits cs)
          else if c = CHR ''+'' then as_number False (parse_digits cs)
          else as_number False (parse_digits (c # cs)))"

text \<open>
  \<open>value.match(/(\d+)([smhd])/)\<close>: the pattern is not anchored, so the leftmost match
  is taken. At one start position the greedy \<open>\d+\<close> takes the whole run of digits;
  giving a digit back cannot help, since the next character would be a digit and not
  a unit. The result is the pair of groups \<open>(match[1], match[2])\<close>.
\<close>

definition match_at :: "string \<Rightarrow> (string \<times> char) option" where
  "match_at s =
     (let ds = takeWhile is_digit s
      in if ds = [] then None
         else (case dropWhile is_digit s of
                 [] \<Rightarrow> None
               | u # _ \<Rightarrow> if is_unit_char u then Some (ds, u) else None))"

fun match_duration :: "string \<Rightarrow> (string \<times> char) option" where
  "match_duration [] = None"
| "match_duration (c # cs) =
     (case match_at (c # cs) of
        Some m \<Rightarrow> Some m
      | None \<Rightarrow> match_duration cs)"

definition parseExpiresToSeconds :: "string \<Rightarrow> int option" where
  "parseExpiresToSeconds v =
     (case match_duration v of
        None \<Rightarrow> finite_part (parseInt v)
      | Some (m1, unit) \<Rightarrow>
          (let amount = parseInt m1
           in if unit = CHR ''s'' then finite_part amount
              else if unit = CHR ''m'' then times amount 60
              else if unit = CHR ''h'' then times amount 3600
              else if unit = CHR ''d'' then times amount 86400
              else finite_part amount))"

text \<open>The second argument is the source's \<open>defaultValue\<close>, 7 when the caller omits it.\<close>

definition parseExpiresToDays :: "string \<Rightarrow> rat \<Rightarrow> rat option" where
  "parseExpiresToDays v defaultValue =
     (case match_duration v of
        None \<Rightarrow>
          (let seconds = parseInt v
           in if seconds = NaN then Some defaultValue
              else divided_by seconds 86400)
      | Some (m1, unit) \<Rightarrow>
          (let amount = parseInt m1
           in if unit = CHR ''s'' then divided_by amount 86400
              else if unit = CHR ''m'' then divided_by amount 1440
              else if unit = CHR ''h'' then divided_by amount 24
              else if unit = CHR ''d'' then map_option of_int (finite_part amount)
              else Some defaultValue))"

text \<open>
  The integer that a string of decimal digits denotes, least significant digit first
  in the recursion: the reading of \<open><integer>\<close> in the duration grammar.
\<close>

fun decimal_rev :: "string \<Rightarrow> int" where
  "decimal_rev [] = 0"
| "decimal_rev (c # cs) = digit_val c + 10 * decimal_rev cs"

definition decimal :: "string \<Rightarrow> int" where
  "decimal ds = decimal_rev (rev ds)"

definition unit_seconds :: "char \<Rightarrow> int" where
  "unit_seconds u =
     (if u = CHR ''s'' then 1 else if u = CHR ''m'' then 60
      else if u = CHR ''h'' then 3600 else 86400)"

section \<open>Data of the token lifecycle\<close>

datatype AppRole = ADMIN | MANAGER | USER

text \<open>\<open>interface RefreshTokenData\<close> (token.service.ts); the two stamps are Unix seconds.\<close>

record RefreshTokenData =
  userId :: int
  role :: AppRole
  expiresAt :: rat
  createdAt :: rat
  ipAddress :: "string option"
  userAgent :: "string option"

record TokenPayload =
  sub :: int
  payload_role :: AppRole

text \<open>What \<open>jwtService.decode\<close> is read as: \<open>{ exp?: number; iat?: number }\<close>.\<close>

record DecodedPayload =
  exp_claim :: "int option"
  iat_claim :: "int option"

record User =
  user_id :: int
  email :: string
  password :: string
  user_role :: AppRole
  firstName :: "string option"
  lastName :: "string option"

record UserResponseDto =
  dto_id :: int
  dto_email :: string
  dto_role :: AppRole
  dto_firstName :: "string option"
  dto_lastName :: "string option"

record request_options =
  opt_ipAddress :: "string option"
  opt_userAgent :: "string option"

record AuthTokensDto =
  dto_accessToken :: string
  dto_refreshToken :: string
  dto_expiresIn :: "int option"

datatype exn =
    StoreError
  | JwtError string
  | UnauthorizedException string
  | NotFoundException string
  | InvalidArgumentError string

text \<open>The i18n keys of \<open>ErrorMessages.AUTH\<close> and \<open>ErrorMessages.ERRORS\<close> that the flows use.\<close>

definition INVALID_REFRESH_TOKEN :: string where
  "INVALID_REFRESH_TOKEN = ''auth.invalid_refresh_token''"

definition TOKEN_MISSING :: string where
  "TOKEN_MISSING = ''auth.token_missing''"

definition TOKEN_REVOKED :: string where
  "TOKEN_REVOKED = ''auth.token_revoked''"

definition NOT_FOUND_WITH_ID :: string where
  "NOT_FOUND_WITH_ID = ''errors.not_found_with_id''"

section \<open>The key-value store\<close>

text \<open>
  The service writes three kinds of keys: \<open>refresh:<token>\<close> holding the JSON text of
  a \<open>RefreshTokenData\<close>, \<open>user:refresh_tokens:<userId>\<close> holding a set of tokens, and
  \<open>blacklist:<token>\<close> holding the text \<open>1\<close>. The three prefixes differ in their first
  character, so no key of one kind is a key of another; the store is modelled with
  one map per kind, indexed by what follows the prefix. A string key carries the time
  to live it was stored with, in seconds; a set has one once \<open>EXPIRE\<close> has set it.
  Members of a set are kept in insertion order.

  \<open>faults\<close> is the schedule of the connection: each command takes the head flag, and
  \<open>True\<close> makes that command reject with nothing done. An empty schedule means that
  every further command goes through. \<open>clock\<close> is the wall clock in milliseconds,
  \<open>uuid_count\<close> the number of identifiers drawn from \<open>randomUUID\<close> so far.
\<close>

definition refreshTokenPrefix :: string where
  "refreshTokenPrefix = ''refresh:''"

definition userRefreshTokensPrefix :: string where
  "userRefreshTokensPrefix = ''user:refresh_tokens:''"

definition blacklistPrefix :: string where
  "blacklistPrefix = ''blacklist:''"

record world =
  refresh_keys :: "string \<rightharpoonup> RefreshTokenData \<times> int"
  user_token_keys :: "int \<rightharpoonup> string list \<times> int option"
  blacklist_keys :: "string \<rightharpoonup> string \<times> int"
  faults :: "bool list"
  clock :: int
  uuid_count :: nat

type_synonym 'a io = "world \<Rightarrow> (exn + 'a) \<times> world"

definition return :: "'a \<Rightarrow> 'a io" where
  "return x w = (Inr x, w)"

definition throw :: "exn \<Rightarrow> 'a io" where
  "throw e w = (Inl e, w)"

definition await :: "'a io \<Rightarrow> ('a \<Rightarrow> 'b io) \<Rightarrow> 'b io" where
  "await m f w = (case m w of (Inl e, w') \<Rightarrow> (Inl e, w') | (Inr x, w') \<Rightarrow> f x w')"

definition try_catch :: "'a io \<Rightarrow> (exn \<Rightarrow> 'a io) \<Rightarrow> 'a io" where
  "try_catch m h w = (case m w of (Inl e, w') \<Rightarrow> h e w' | (Inr x, w') \<Rightarrow> (Inr x, w'))"

text \<open>One command sent to the store: it takes the next flag of the schedule.\<close>

definition command :: "'a io \<Rightarrow> 'a io" where
  "command f w =
     (case faults w of
        [] \<Rightarrow> f w
      | flag # rest \<Rightarrow>
          if flag then (Inl StoreError, w\<lparr>faults := rest\<rparr>)
          else f (w\<lparr>faults := rest\<rparr>))"

text \<open>A command that the server refuses whatever it holds, such as \<open>SETEX\<close> with \<open>NaN\<close>.\<close>

definition redis_refused :: "unit io" where
  "redis_refused = command (\<lambda>w. (Inl StoreError, w))"

text \<open>
  \<open>GET\<close> on a refresh key. What it returns is the JSON text that \<open>setex\<close> wrote, and
  \<open>JSON.parse\<close> gives the record back; the model hands over the record.
\<close>

definition redis_get_refresh :: "string \<Rightarrow> RefreshTokenData option io" where
  "redis_get_refresh token =
     command (\<lambda>w. (Inr (map_option fst (refresh_keys w token)), w))"

text \<open>
  \<open>SETEX key seconds value\<close> rejects a time to live that is not a positive integer
  (\<open>NaN\<close> is \<open>None\<close>).
\<close>

definition redis_setex_refresh :: "string \<Rightarrow> int option \<Rightarrow> RefreshTokenData \<Rightarrow> unit io" where
  "redis_setex_refresh token ttl d =
     command (\<lambda>w. case ttl of
        None \<Rightarrow> (Inl StoreError, w)
      | Some n \<Rightarrow>
          if n \<le> 0 then (Inl StoreError, w)
          else (Inr (), w\<lparr>refresh_keys := (refresh_keys w)(token \<mapsto> (d, n))\<rparr>))"

definition redis_del_refresh :: "string \<Rightarrow> unit io" where
  "redis_del_refresh token =
     command (\<lambda>w. (Inr (), w\<lparr>refresh_keys := (refresh_keys w)(token := None)\<rparr>))"

definition redis_sadd :: "int \<Rightarrow> string \<Rightarrow> unit io" where
  "redis_sadd uid member =
     command (\<lambda>w. case user_token_keys w uid of
        None \<Rightarrow> (Inr (), w\<lparr>user_token_keys := (user_token_keys w)(uid \<mapsto> ([member], None))\<rparr>)
      | Some (members, ttl) \<Rightarrow>
          if member \<in> set members then (Inr (), w)
          else (Inr (), w\<lparr>user_token_keys :=
                   (user_token_keys w)(uid \<mapsto> (members @ [member], ttl))\<rparr>))"

text \<open>\<open>EXPIRE\<close> on a key: a time to live that is not positive deletes the key.\<close>

definition redis_expire :: "int \<Rightarrow> int option \<Rightarrow> unit io" where
  "redis_expire uid ttl =
     command (\<lambda>w. case ttl of
        None \<Rightarrow> (Inl StoreError, w)
      | Some n \<Rightarrow>
          (case user_token_keys w uid of
             None \<Rightarrow> (Inr (), w)
           | Some (members, _) \<Rightarrow>
               if n \<le> 0
               then (Inr (), w\<lparr>user_token_keys := (user_token_keys w)(uid := None)\<rparr>)
               else (Inr (), w\<lparr>user_token_keys :=
                        (user_token_keys w)(uid \<mapsto> (members, Some n))\<rparr>)))"

text \<open>\<open>SREM\<close>: a set that loses its last member is removed with its key.\<close>

definition redis_srem :: "int \<Rightarrow> string \<Rightarrow> unit io" where
  "redis_srem uid member =
     command (\<lambda>w. case user_token_keys w uid of
        None \<Rightarrow> (Inr (), w)
      | Some (members, ttl) \<Rightarrow>
          (let members' = filter (\<lambda>m. m \<noteq> member) members
           in if members' = []
              then (Inr (), w\<lparr>user_token_keys := (user_token_keys w)(uid := None)\<rparr>)
              else (Inr (), w\<lparr>user_token_keys :=
                       (user_token_keys w)(uid \<mapsto> (members', ttl))\<rparr>)))"

definition redis_smembers :: "int \<Rightarrow> string list io" where
  "redis_smembers uid =
     command (\<lambda>w. (Inr (case user_token_keys w uid of None \<Rightarrow> [] | Some (members, _) \<Rightarrow> members), w))"

definition redis_del_user_tokens :: "int \<Rightarrow> unit io" where
  "redis_del_user_tokens uid =
     command (\<lambda>w. (Inr (), w\<lparr>user_token_keys := (user_token_keys w)(uid := None)\<rparr>))"

definition redis_setex_blacklist :: "string \<Rightarrow> int option \<Rightarrow> string \<Rightarrow> unit io" where
  "redis_setex_blacklist token ttl v =
     command (\<lambda>w. case ttl of
        None \<Rightarrow> (Inl StoreError, w)
      | Some n \<Rightarrow>
          if n \<le> 0 then (Inl StoreError, w)
          else (Inr (), w\<lparr>blacklist_keys := (blacklist_keys w)(token \<mapsto> (v, n))\<rparr>))"

definition redis_exists_blacklist :: "string \<Rightarrow> int io" where
  "redis_exists_blacklist token =
     command (\<lambda>w. (Inr (if blacklist_keys w token = None then 0 else 1), w))"

text \<open>
  \<open>Promise.all\<close> over commands that were all issued before the first is awaited:
  each one runs, in the order of issue, whether or not an earlier one rejected; the
  result rejects when one of them did.
\<close>

fun promise_all :: "unit io list \<Rightarrow> unit io" where
  "promise_all [] w = (Inr (), w)"
| "promise_all (p # ps) w =
     (case p w of
        (r, w') \<Rightarrow>
          (case promise_all ps w' of
             (rs, w'') \<Rightarrow> ((case r of Inl e \<Rightarrow> Inl e | Inr _ \<Rightarrow> rs), w'')))"

text \<open>
  \<open>DateTime.now().toSeconds()\<close>: the clock in milliseconds divided by 1000, as a
  double. (A clock reading is far below the range limit of doubles.)
\<close>

definition toSeconds :: "int \<Rightarrow> rat" where
  "toSeconds ms = nearest_double (of_int ms / 1000)"

section \<open>What the services are given\<close>

text \<open>
  The collaborators outside the repository, and the configuration: the rows of the
  users table by primary key, \<open>JwtService.signAsync\<close> (given the payload and the
  clock), \<open>JwtService.decode\<close> (which may throw, return \<open>null\<close> or a payload),
  the verification that passport-jwt runs with the configured secret, the values
  that \<open>randomUUID()\<close> returns in the order of the calls, and the two configured
  duration strings.

  Two more concern \<open>generateRefreshToken\<close>. \<open>plusDays ts days\<close> is luxon's arithmetic in
  the time zone of the process: the number that \<open>plus({ days }).toSeconds()\<close> returns
  for the \<open>DateTime\<close> of the instant \<open>ts\<close> (in milliseconds), \<open>None\<close> when it is not
  finite, or the error that luxon throws. \<open>elapsed n\<close> is the time in milliseconds that
  passes between the two readings of the clock when the \<open>n\<close>-th identifier is drawn.
\<close>

record env =
  users :: "int \<rightharpoonup> User"
  signAsync :: "TokenPayload \<Rightarrow> int \<Rightarrow> exn + string"
  decode :: "string \<Rightarrow> exn + DecodedPayload option"
  jwt_verify :: "string \<Rightarrow> int \<Rightarrow> exn + TokenPayload"
  randomUUID :: "nat \<Rightarrow> string"
  plusDays :: "int \<Rightarrow> rat option \<Rightarrow> exn + rat option"
  elapsed :: "nat \<Rightarrow> int"
  accessExpiresIn :: string
  refreshExpiresIn :: string

section \<open>TokenService (modules/auth/services/token.service.ts)\<close>

text \<open>The two fields that the constructor computes from the configuration.\<close>

definition refreshTokenExpirationDays :: "env \<Rightarrow> rat option" where
  "refreshTokenExpirationDays e = parseExpiresToDays (refreshExpiresIn e) 7"

definition accessTokenExpirationSeconds :: "env \<Rightarrow> int option" where
  "accessTokenExpirationSeconds e = parseExpiresToSeconds (accessExpiresIn e)"

definition generateAccessToken :: "env \<Rightarrow> int \<Rightarrow> AppRole \<Rightarrow> string io" where
  "generateAccessToken e uid r w = (signAsync e \<lparr>sub = uid, payload_role = r\<rparr> (clock w), w)"

text \<open>
  \<open>generateRefreshToken\<close> reads the clock twice, first for \<open>expiresAt\<close> and then for
  \<open>createdAt\<close>. When \<open>expiresAt\<close> is not a finite number, neither is the time to live,
  and the \<open>SETEX\<close> is refused. The subtraction is one on doubles.
\<close>

definition generateRefreshToken ::
  "env \<Rightarrow> int \<Rightarrow> AppRole \<Rightarrow> request_options option \<Rightarrow> string io" where
  "generateRefreshToken e uid r options w =
     (let refreshToken = randomUUID e (uuid_count w);
          w1 = w\<lparr>uuid_count := Suc (uuid_count w)\<rparr>
      in case plusDays e (clock w1) (refreshTokenExpirationDays e) of
           Inl error \<Rightarrow> (Inl error, w1)
         | Inr None \<Rightarrow> await redis_refused (\<lambda>_. return refreshToken) w1
         | Inr (Some expiresAtUnix) \<Rightarrow>
             (let createdAtUnix = toSeconds (clock w1 + elapsed e (uuid_count w));
                  tokenData = \<lparr>userId = uid, role = r,
                               expiresAt = expiresAtUnix, createdAt = createdAtUnix,
                               ipAddress = (case options of None \<Rightarrow> None | Some opt \<Rightarrow> opt_ipAddress opt),
                               userAgent = (case options of None \<Rightarrow> None | Some opt \<Rightarrow> opt_userAgent opt)\<rparr>;
                  ttlSeconds = map_option floor (to_double (expiresAtUnix - createdAtUnix))
              in await (redis_setex_refresh refreshToken ttlSeconds tokenData) (\<lambda>_.
                 await (redis_sadd uid refreshToken) (\<lambda>_.
                 await (redis_expire uid ttlSeconds) (\<lambda>_.
                 return refreshToken))) w1))"

definition revokeRefreshToken :: "string \<Rightarrow> unit io" where
  "revokeRefreshToken refreshToken =
     try_catch
       (await (redis_get_refresh refreshToken) (\<lambda>tokenDataStr.
          case tokenDataStr of
            Some tokenData \<Rightarrow>
              await (redis_srem (userId tokenData) refreshToken) (\<lambda>_.
              await (redis_del_refresh refreshToken) (\<lambda>_.
              return ()))
          | None \<Rightarrow> return ()))
       (\<lambda>error. return ())"

definition verifyRefreshToken :: "string \<Rightarrow> RefreshTokenData option io" where
  "verifyRefreshToken refreshToken =
     try_catch
       (await (redis_get_refresh refreshToken) (\<lambda>tokenDataStr.
          case tokenDataStr of
            None \<Rightarrow> return None
          | Some tokenData \<Rightarrow>
              (\<lambda>w. let now = toSeconds (clock w)
                   in if expiresAt tokenData < now
                      then await (revokeRefreshToken refreshToken) (\<lambda>_. return None) w
                      else return (Some tokenData) w)))
       (\<lambda>error. return None)"

definition revokeUserRefreshTokens :: "int \<Rightarrow> unit io" where
  "revokeUserRefreshTokens uid =
     try_catch
       (await (redis_smembers uid) (\<lambda>refreshTokens.
          if length refreshTokens = 0 then return ()
          else promise_all (map redis_del_refresh refreshTokens @ [redis_del_user_tokens uid])))
       (\<lambda>error. return ())"

text \<open>
  \<open>payload?.exp\<close> as a condition: it holds when the payload is there and its \<open>exp\<close>
  is a number other than 0.
\<close>

definition truthy_exp :: "DecodedPayload option \<Rightarrow> int option" where
  "truthy_exp payload =
     (case payload of
        None \<Rightarrow> None
      | Some p \<Rightarrow> (case exp_claim p of None \<Rightarrow> None | Some x \<Rightarrow> if x = 0 then None else Some x))"

definition blacklistAccessToken :: "env \<Rightarrow> string \<Rightarrow> unit io" where
  "blacklistAccessToken e accessToken =
     try_catch
       (try_catch
          (\<lambda>w. case decode e accessToken of
                  Inl error \<Rightarrow> (Inl error, w)
                | Inr payload \<Rightarrow>
                    (case truthy_exp payload of
                       Some x \<Rightarrow>
                         (let now = clock w div 1000;
                              ttl = x - now
                          in if ttl > 0 then redis_setex_blacklist accessToken (Some ttl) ''1'' w
                             else (Inr (), w))
                     | None \<Rightarrow>
                         redis_setex_blacklist accessToken (accessTokenExpirationSeconds e) ''1'' w))
          (\<lambda>error. redis_setex_blacklist accessToken (accessTokenExpirationSeconds e) ''1''))
       (\<lambda>error. return ())"

definition isAccessTokenBlacklisted :: "string \<Rightarrow> bool io" where
  "isAccessTokenBlacklisted accessToken =
     try_catch
       (await (redis_exists_blacklist accessToken) (\<lambda>n. return (n = 1)))
       (\<lambda>error. return False)"

definition logout :: "env \<Rightarrow> int \<Rightarrow> string \<Rightarrow> unit io" where
  "logout e uid accessToken =
     await (blacklistAccessToken e accessToken) (\<lambda>_.
     revokeUserRefreshTokens uid)"

section \<open>UsersService and AuthService\<close>

text \<open>\<open>BaseService.findOne\<close>: the row by primary key, or \<open>NotFoundException\<close>.\<close>

definition findOne :: "env \<Rightarrow> int \<Rightarrow> User io" where
  "findOne e ident =
     (case users e ident of
        None \<Rightarrow> throw (NotFoundException NOT_FOUND_WITH_ID)
      | Some entity \<Rightarrow> return entity)"

definition toSafeEntity :: "User \<Rightarrow> UserResponseDto" where
  "toSafeEntity u =
     \<lparr>dto_id = user_id u, dto_email = email u, dto_role = user_role u,
      dto_firstName = firstName u, dto_lastName = lastName u\<rparr>"

definition issueTokens ::
  "env \<Rightarrow> int \<Rightarrow> AppRole \<Rightarrow> request_options option \<Rightarrow> AuthTokensDto io" where
  "issueTokens e uid r options =
     await (generateAccessToken e uid r) (\<lambda>accessToken.
     await (generateRefreshToken e uid r options) (\<lambda>refreshToken.
     (let expiresIn = parseExpiresToSeconds (accessExpiresIn e)
      in return \<lparr>dto_accessToken = accessToken, dto_refreshToken = refreshToken,
                 dto_expiresIn = expiresIn\<rparr>)))"

text \<open>
  \<open>AuthService.refreshToken\<close>. \<open>findOne\<close> throws when there is no row, so the test
  \<open>if (!user)\<close> that follows it in the source never holds.
\<close>

definition refreshToken_flow ::
  "env \<Rightarrow> string \<Rightarrow> request_options option \<Rightarrow> AuthTokensDto io" where
  "refreshToken_flow e presented options =
     await (verifyRefreshToken presented) (\<lambda>tokenData.
       case tokenData of
         None \<Rightarrow> throw (UnauthorizedException INVALID_REFRESH_TOKEN)
       | Some td \<Rightarrow>
           await (findOne e (userId td)) (\<lambda>user.
           await (revokeRefreshToken presented) (\<lambda>_.
           issueTokens e (user_id user) (user_role user) options)))"

section \<open>JwtStrategy\<close>

text \<open>
  A request, as far as the strategy reads it: what
  \<open>ExtractJwt.fromAuthHeaderAsBearerToken()\<close> finds in it.
\<close>

record request =
  bearer :: "string option"

definition validate :: "env \<Rightarrow> request \<Rightarrow> TokenPayload \<Rightarrow> UserResponseDto io" where
  "validate e req payload =
     (case bearer req of
        None \<Rightarrow> throw (UnauthorizedException TOKEN_MISSING)
      | Some token \<Rightarrow>
          if token = [] then throw (UnauthorizedException TOKEN_MISSING)
          else
            await (isAccessTokenBlacklisted token) (\<lambda>isBlacklisted.
              if isBlacklisted then throw (UnauthorizedException TOKEN_REVOKED)
              else await (findOne e (sub payload)) (\<lambda>user.
                   return (toSafeEntity user))))"

text \<open>
  The strategy is a passport-jwt \<open>Strategy\<close> built with \<open>jwtFromRequest\<close>,
  \<open>ignoreExpiration: false\<close>, \<open>secretOrKey\<close> and \<open>passReqToCallback: true\<close>. Passport
  extracts the token, verifies signature and expiry with the secret, and calls
  \<open>validate(req, payload)\<close> with the verified payload; a request without a token or
  with a token that does not verify is failed before \<open>validate\<close> runs.
\<close>

definition authenticate :: "env \<Rightarrow> request \<Rightarrow> UserResponseDto io" where
  "authenticate e req w =
     (case bearer req of
        None \<Rightarrow> (Inl (JwtError ''No auth token''), w)
      | Some token \<Rightarrow>
          if token = [] then (Inl (JwtError ''No auth token''), w)
          else (case jwt_verify e token (clock w) of
                  Inl jwt_err \<Rightarrow> (Inl jwt_err, w)
                | Inr payload \<Rightarrow> validate e req payload w))"

section \<open>Two calls of \<open>AuthService.refreshToken\<close> at once\<close>

text \<open>
  A call of \<open>refreshToken\<close> gives way to other requests at each \<open>await\<close>. Between
  two of them it is at one of these points: about to verify, about to look the user
  up, about to revoke, about to issue, or settled with its result.
\<close>

datatype refresh_task =
    AtVerify
  | AtFindOne RefreshTokenData
  | AtRevoke User
  | AtIssue User
  | Settled "exn + AuthTokensDto"

definition refresh_step ::
  "env \<Rightarrow> string \<Rightarrow> request_options option \<Rightarrow> refresh_task \<times> world \<Rightarrow> refresh_task \<times> world" where
  "refresh_step e presented options cfg =
     (case cfg of (task, w) \<Rightarrow>
        (case task of
           AtVerify \<Rightarrow>
             (case verifyRefreshToken presented w of
                (Inl err, w') \<Rightarrow> (Settled (Inl err), w')
              | (Inr None, w') \<Rightarrow>
                  (Settled (Inl (UnauthorizedException INVALID_REFRESH_TOKEN)), w')
              | (Inr (Some td), w') \<Rightarrow> (AtFindOne td, w'))
         | AtFindOne td \<Rightarrow>
             (case findOne e (userId td) w of
                (Inl err, w') \<Rightarrow> (Settled (Inl err), w')
              | (Inr user, w') \<Rightarrow> (AtRevoke user, w'))
         | AtRevoke user \<Rightarrow>
             (case revokeRefreshToken presented w of
                (Inl err, w') \<Rightarrow> (Settled (Inl err), w')
              | (Inr _, w') \<Rightarrow> (AtIssue user, w'))
         | AtIssue user \<Rightarrow>
             (case issueTokens e (user_id user) (user_role user) options w of
                (r, w') \<Rightarrow> (Settled r, w'))
         | Settled r \<Rightarrow> (Settled r, w)))"




section \<open>Notions used to state the properties\<close>

text \<open>The store answers the next \<open>n\<close> commands: none of them is rejected.\<close>

definition accepted :: "nat \<Rightarrow> world \<Rightarrow> bool" where
  "accepted n w = (True \<notin> set (take n (faults w)))"

text \<open>
  The expiry that \<open>blacklistAccessToken\<close> reads from a token: \<open>None\<close> when decoding
  throws or the payload has no \<open>exp\<close> that counts as true.
\<close>

definition expiry_claim :: "env \<Rightarrow> string \<Rightarrow> int option" where
  "expiry_claim e accessToken =
     (case decode e accessToken of Inl _ \<Rightarrow> None | Inr payload \<Rightarrow> truthy_exp payload)"

text \<open>
  Every stored refresh token is a member of the set of its owner. This is how
  \<open>generateRefreshToken\<close> leaves the store.
\<close>

definition indexed :: "world \<Rightarrow> bool" where
  "indexed w =
     (\<forall>token d ttl. refresh_keys w token = Some (d, ttl) \<longrightarrow>
        (\<exists>members ttl'. user_token_keys w (userId d) = Some (members, ttl') \<and> token \<in> set members))"

section \<open>A small configuration to run the model on\<close>

definition alice :: User where
  "alice = \<lparr>user_id = 1, email = ''a@example.com'', password = ''hash'',
            user_role = USER, firstName = None, lastName = None\<rparr>"

text \<open>
  An environment with one user. Its codec reads the token \<open>live\<close> as expiring at second
  5000 and \<open>old\<close> as expired at second 100; anything else has no readable payload. Only
  \<open>live\<close> verifies: \<open>old\<close> is expired and any other token has a bad signature. The
  identifiers drawn are \<open>u\<close>, \<open>uu\<close>, \<open>uuu\<close>, and so on. Its zone has days of 86400
  seconds, and a millisecond passes between the two readings of the clock.
\<close>

definition env0 :: env where
  "env0 = \<lparr>users = [1 \<mapsto> alice],
           signAsync = (\<lambda>p c. Inr ''jwt''),
           decode = (\<lambda>tok.
              if tok = ''live'' then Inr (Some \<lparr>exp_claim = Some 5000, iat_claim = Some 1400\<rparr>)
              else if tok = ''old'' then Inr (Some \<lparr>exp_claim = Some 100, iat_claim = Some 50\<rparr>)
              else Inr None),
           jwt_verify = (\<lambda>tok c.
              if tok = ''live'' then Inr \<lparr>sub = 1, payload_role = USER\<rparr>
              else if tok = ''old'' then Inl (JwtError ''jwt expired'')
              else Inl (JwtError ''invalid signature'')),
           randomUUID = (\<lambda>n. replicate (Suc n) CHR ''u''),
           plusDays = (\<lambda>ts days.
              case days of
                None \<Rightarrow> Inl (InvalidArgumentError ''Invalid unit value NaN'')
              | Some n \<Rightarrow> Inr (to_double (toSeconds ts + n * 86400))),
           elapsed = (\<lambda>n. 1),
           accessExpiresIn = ''3600s'',
           refreshExpiresIn = ''7d''\<rparr>"

definition data1 :: RefreshTokenData where
  "data1 = \<lparr>userId = 1, role = USER, expiresAt = 2000, createdAt = 900,
            ipAddress = None, userAgent = None\<rparr>"

definition data2 :: RefreshTokenData where
  "data2 = \<lparr>userId = 2, role = USER, expiresAt = 2000, createdAt = 900,
            ipAddress = None, userAgent = None\<rparr>"

text \<open>
  At second 1000 the store holds the refresh token \<open>t1\<close> of user 1 and \<open>t2\<close> of user 2,
  who has no row in the users table; in \<open>world_late\<close> the clock has passed their expiry.
\<close>

definition world0 :: world where
  "world0 = \<lparr>refresh_keys = [''t1'' \<mapsto> (data1, 1100), ''t2'' \<mapsto> (data2, 1100)],
             user_token_keys = [1 \<mapsto> ([''t1''], Some 1100), 2 \<mapsto> ([''t2''], Some 1100)],
             blacklist_keys = Map.empty,
             faults = [],
             clock = 1000000,
             uuid_count = 0\<rparr>"

definition world_late :: world where
  "world_late = world0\<lparr>clock := 3000000\<rparr>"

text \<open>The store after the token \<open>forged\<close>, which does not verify, has been blacklisted.\<close>

definition world_marked :: world where
  "world_marked = snd (blacklistAccessToken env0 ''forged'' world0)"

text \<open>The store after the token \<open>live\<close>, which verifies, has been blacklisted.\<close>

definition world_live_marked :: world where
  "world_live_marked = snd (blacklistAccessToken env0 ''live'' world0)"

text \<open>
  The store after a \<open>revokeRefreshToken\<close> of \<open>t1\<close> whose \<open>DEL\<close> was rejected: the
  record of \<open>t1\<close> is still there, the set of user 1 no longer has it.
\<close>

definition world_orphan :: world where
  "world_orphan = snd (revokeRefreshToken ''t1'' (world0\<lparr>faults := [False, False, True]\<rparr>))"

text \<open>An environment whose first new identifier is the token \<open>t1\<close> again.\<close>

definition env_collide :: env where
  "env_collide = env0\<lparr>randomUUID := (\<lambda>n. if n = 0 then ''t1'' else replicate n CHR ''u'')\<rparr>"

section \<open>Properties of the duration parsers\<close>

lemma digit_not_unit: "is_digit c \<Longrightarrow> \<not> is_unit_char c"
  by (auto simp: is_digit_def is_unit_char_def)

lemma unit_not_digit: "is_unit_char c \<Longrightarrow> \<not> is_digit c"
  by (auto simp: is_digit_def is_unit_char_def)

lemma digit_not_sign: "is_digit c \<Longrightarrow> c \<noteq> CHR ''-'' \<and> c \<noteq> CHR ''+''"
  by (auto simp: is_digit_def)

lemma digit_first_byte: "is_digit c \<Longrightarrow> ws \<in> set white_space \<Longrightarrow> ws \<noteq> [] \<and> hd ws \<noteq> c"
  unfolding is_digit_def white_space_def by simp (elim disjE; simp)

lemma digit_no_leading_space:
  assumes "is_digit c"
  shows "leading_space (c # cs) = 0"
proof -
  have "\<not> (\<exists>ws \<in> set white_space. take (length ws) (c # cs) = ws)"
  proof
    assume "\<exists>ws \<in> set white_space. take (length ws) (c # cs) = ws"
    then obtain ws where ws: "ws \<in> set white_space" and t: "take (length ws) (c # cs) = ws"
      by blast
    obtain b bs where "ws = b # bs" using digit_first_byte [OF assms ws] by (cases ws) auto
    then show False using t digit_first_byte [OF assms ws] by simp
  qed
  then have "find (\<lambda>ws. take (length ws) (c # cs) = ws) white_space = None"
    by (simp add: find_None_iff)
  then show ?thesis by (simp add: leading_space_def)
qed

lemma digit_skip_space: "is_digit c \<Longrightarrow> skip_space (c # cs) = c # cs"
  by (subst skip_space.simps) (simp add: digit_no_leading_space)

lemma digit_val_range: "is_digit c \<Longrightarrow> 0 \<le> digit_val c \<and> digit_val c \<le> 9"
  by (auto simp: is_digit_def digit_val_def)

lemma decimal_rev_nonneg: "list_all is_digit ds \<Longrightarrow> 0 \<le> decimal_rev ds"
  by (induction ds) (auto dest: digit_val_range)

lemma decimal_nonneg: "list_all is_digit ds \<Longrightarrow> 0 \<le> decimal ds"
  unfolding decimal_def by (rule decimal_rev_nonneg) simp

lemma foldl_decimal: "foldl (\<lambda>a c. 10 * a + digit_val c) 0 ds = decimal ds"
  unfolding decimal_def by (induction ds rule: rev_induct) simp_all

lemma takeWhile_digits: "list_all is_digit ds \<Longrightarrow> takeWhile is_digit ds = ds"
  by (simp add: list_all_iff)

lemma parse_digits_all:
  assumes "ds \<noteq> []" and "list_all is_digit ds"
  shows "parse_digits ds = Some (decimal ds)"
  using assms by (simp add: parse_digits_def takeWhile_digits foldl_decimal)

lemma round_int_exact: "0 \<le> n \<Longrightarrow> n \<le> 2 ^ 53 \<Longrightarrow> round_int n = Some n"
  by (simp add: round_int_def)

lemma parseInt_unsigned:
  assumes "skip_space v = c # cs" and "is_digit c" and "parse_digits (c # cs) = Some k"
    and "round_int k = Some k"
  shows "parseInt v = Finite k"
  using assms digit_not_sign [of c]
  by (simp add: parseInt_def as_number_def)

lemma parseInt_digits:
  assumes "ds \<noteq> []" and "list_all is_digit ds" and "decimal ds \<le> 2 ^ 53"
  shows "parseInt ds = Finite (decimal ds)"
proof -
  obtain c cs where ds: "ds = c # cs" using assms(1) by (cases ds) auto
  have c: "is_digit c" using assms(2) unfolding ds by simp
  have sk: "skip_space ds = c # cs"
    unfolding ds using c by (rule digit_skip_space)
  have pd: "parse_digits (c # cs) = Some (decimal ds)"
    using parse_digits_all [OF assms(1,2)] unfolding ds .
  have r: "round_int (decimal ds) = Some (decimal ds)"
    using decimal_nonneg [OF assms(2)] assms(3) by (rule round_int_exact)
  show ?thesis using sk c pd r by (rule parseInt_unsigned)
qed

lemma match_at_digits_unit:
  assumes "ds \<noteq> []" and "list_all is_digit ds" and "is_unit_char u"
  shows "match_at (ds @ u # rest) = Some (ds, u)"
proof -
  have nd: "\<not> is_digit u" using assms(3) by (rule unit_not_digit)
  have t: "takeWhile is_digit (ds @ u # rest) = ds"
    using assms(2) nd by (simp add: list_all_iff takeWhile_append2)
  have d: "dropWhile is_digit (ds @ u # rest) = u # rest"
    using assms(2) nd by (simp add: list_all_iff dropWhile_append2)
  show ?thesis using assms(1,3) by (simp add: match_at_def t d)
qed

lemma match_duration_digits_unit:
  assumes "ds \<noteq> []" and "list_all is_digit ds" and "is_unit_char u"
  shows "match_duration (ds @ u # rest) = Some (ds, u)"
proof -
  obtain c cs where ds: "ds = c # cs" using assms(1) by (cases ds) auto
  have "match_duration (c # (cs @ u # rest)) = Some (ds, u)"
    using match_at_digits_unit [OF assms, of rest] ds by simp
  then show ?thesis using ds by simp
qed

lemma match_at_all_digits:
  assumes "list_all is_digit ds"
  shows "match_at ds = None"
proof -
  have d: "dropWhile is_digit ds = []"
    using assms by (simp add: list_all_iff)
  show ?thesis unfolding match_at_def Let_def d by simp
qed

lemma match_duration_all_digits: "list_all is_digit ds \<Longrightarrow> match_duration ds = None"
  by (induction ds) (simp_all add: match_at_all_digits)

text \<open>
  C9 (as amended). Take a non-empty string of decimal digits \<open>ds\<close>, denoting the integer
  \<open>n\<close>, and a unit \<open>u\<close> among \<open>s\<close>, \<open>m\<close>, \<open>h\<close>, \<open>d\<close> with factor 1, 60, 3600 or 86400, such
  that \<open>n\<close> times the factor is at most \<open>2^53\<close>. Then \<open>parseExpiresToSeconds\<close> of \<open>ds\<close>
  followed by \<open>u\<close> is \<open>n\<close> times the factor, and of the bare \<open>ds\<close> it is \<open>n\<close>.
  \<open>parseExpiresToDays\<close>, whatever its default value, returns \<open>n\<close> itself for the unit
  \<open>d\<close>, and otherwise the double nearest to that number of seconds divided by 86400;
  for the bare \<open>ds\<close> it returns the double nearest to \<open>n / 86400\<close>.
\<close>

theorem duration_grammar:
  assumes "ds \<noteq> []" and "list_all is_digit ds" and "is_unit_char u"
    and "decimal ds * unit_seconds u \<le> 2 ^ 53"
  shows "parseExpiresToSeconds (ds @ [u]) = Some (decimal ds * unit_seconds u)
       \<and> parseExpiresToSeconds ds = Some (decimal ds)
       \<and> parseExpiresToDays (ds @ [u]) dflt =
           (if u = CHR ''d'' then Some (of_int (decimal ds))
            else to_double (of_int (decimal ds * unit_seconds u) / 86400))
       \<and> parseExpiresToDays ds dflt = to_double (of_int (decimal ds) / 86400)"
proof -
  have nn: "0 \<le> decimal ds" using assms(2) by (rule decimal_nonneg)
  have one: "1 \<le> unit_seconds u" by (simp add: unit_seconds_def)
  have "decimal ds * 1 \<le> decimal ds * unit_seconds u"
    using nn one by (intro mult_left_mono) simp_all
  then have small: "decimal ds \<le> 2 ^ 53" using assms(4) by simp
  have m: "match_duration (ds @ [u]) = Some (ds, u)"
    using assms(1-3) by (rule match_duration_digits_unit)
  have n: "match_duration ds = None"
    using assms(2) by (rule match_duration_all_digits)
  have p: "parseInt ds = Finite (decimal ds)"
    using assms(1,2) small by (rule parseInt_digits)
  have r: "round_int (decimal ds * unit_seconds u) = Some (decimal ds * unit_seconds u)"
    using nn one assms(4) by (intro round_int_exact) simp_all
  have u: "u = CHR ''s'' \<or> u = CHR ''m'' \<or> u = CHR ''h'' \<or> u = CHR ''d''"
    using assms(3) by (auto simp: is_unit_char_def)
  have s1: "parseExpiresToSeconds (ds @ [u]) = Some (decimal ds * unit_seconds u)"
    using u r
    by (auto simp: parseExpiresToSeconds_def m p unit_seconds_def times_def finite_part_def)
  have s2: "parseExpiresToSeconds ds = Some (decimal ds)"
    by (simp add: parseExpiresToSeconds_def n p finite_part_def)
  have d1: "parseExpiresToDays (ds @ [u]) dflt =
           (if u = CHR ''d'' then Some (of_int (decimal ds))
            else to_double (of_int (decimal ds * unit_seconds u) / 86400))"
    using u
    by (auto simp: parseExpiresToDays_def m p unit_seconds_def divided_by_def finite_part_def)
  have d2: "parseExpiresToDays ds dflt = to_double (of_int (decimal ds) / 86400)"
    by (simp add: parseExpiresToDays_def n p divided_by_def)
  show ?thesis using s1 s2 d1 d2 by simp
qed

theorem duration_grammar_witness:
  "''15'' \<noteq> [] \<and> list_all is_digit ''15'' \<and> is_unit_char CHR ''m''
   \<and> decimal ''15'' * unit_seconds CHR ''m'' \<le> 2 ^ 53
   \<and> parseExpiresToSeconds ''15m'' = Some 900
   \<and> parseExpiresToSeconds ''15'' = Some 15
   \<and> parseExpiresToDays ''15m'' 7 = to_double (900 / 86400)
   \<and> parseExpiresToDays ''15'' 7 = to_double (15 / 86400)"
proof -
  have h: "''15'' \<noteq> []" "list_all is_digit ''15''" "is_unit_char CHR ''m''"
    by (simp_all add: is_digit_def is_unit_char_def)
  have v: "decimal ''15'' = 15" "unit_seconds CHR ''m'' = 60"
    by (simp_all add: decimal_def digit_val_def unit_seconds_def)
  have b: "decimal ''15'' * unit_seconds CHR ''m'' \<le> 2 ^ 53"
    by (simp add: v)
  show ?thesis
    using duration_grammar [OF h b, of 7] h b by (simp add: v)
qed

text \<open>
  C9 as stated fails where doubles round. The digits \<open>9007199254740993\<close> denote
  \<open>2^53 + 1\<close>, and \<open>parseExpiresToSeconds\<close> returns \<open>2^53\<close>. For \<open>15m\<close>, which is 900
  seconds, \<open>parseExpiresToDays\<close> returns a double that is not \<open>900 / 86400\<close>.
\<close>

theorem duration_rounding_counterexample:
  "decimal ''9007199254740993'' = 9007199254740993
 \<and> parseExpiresToSeconds ''9007199254740993'' = Some 9007199254740992
 \<and> parseExpiresToSeconds ''15m'' = Some 900
 \<and> parseExpiresToDays ''15m'' 7 = Some (6004799503160661 / 576460752303423488)
 \<and> (6004799503160661 / 576460752303423488 :: rat) \<noteq> 900 / 86400"
proof -
  have a: "decimal ''9007199254740993'' = 9007199254740993" by code_simp
  have b: "parseExpiresToSeconds ''9007199254740993'' = Some 9007199254740992" by code_simp
  have c: "parseExpiresToSeconds ''15m'' = Some 900" by code_simp
  have d: "parseExpiresToDays ''15m'' 7 = Some (6004799503160661 / 576460752303423488)"
    by code_simp
  have e: "(6004799503160661 / 576460752303423488 :: rat) \<noteq> 900 / 86400" by simp
  show ?thesis using a b c d e by blast
qed

section \<open>Single commands and single-token operations\<close>

text \<open>The three kinds of keys are disjoint, and a key determines what follows its prefix.\<close>

lemma key_kinds_disjoint:
  "refreshTokenPrefix @ a \<noteq> userRefreshTokensPrefix @ b"
  "refreshTokenPrefix @ a \<noteq> blacklistPrefix @ c"
  "userRefreshTokensPrefix @ b \<noteq> blacklistPrefix @ c"
  by (simp_all add: refreshTokenPrefix_def userRefreshTokensPrefix_def blacklistPrefix_def)

lemma key_determines_token:
  "refreshTokenPrefix @ a = refreshTokenPrefix @ a' \<longleftrightarrow> a = a'"
  "blacklistPrefix @ c = blacklistPrefix @ c' \<longleftrightarrow> c = c'"
  "userRefreshTokensPrefix @ b = userRefreshTokensPrefix @ b' \<longleftrightarrow> b = b'"
  by simp_all

lemmas io_defs = return_def throw_def await_def try_catch_def

lemma command_no_faults: "faults w = [] \<Longrightarrow> command f w = f w"
  by (simp add: command_def)

lemma command_fault: "faults w = True # fs \<Longrightarrow> command f w = (Inl StoreError, w\<lparr>faults := fs\<rparr>)"
  by (simp add: command_def)

lemma command_pass: "faults w = False # fs \<Longrightarrow> command f w = f (w\<lparr>faults := fs\<rparr>)"
  by (simp add: command_def)

text \<open>Commands that the store answers.\<close>

lemma accepted_no_faults: "faults w = [] \<Longrightarrow> accepted n w"
  by (simp add: accepted_def)

lemma accepted_Suc:
  "accepted (Suc n) w \<longleftrightarrow>
     faults w = [] \<or> (\<exists>fs. faults w = False # fs \<and> accepted n (w\<lparr>faults := fs\<rparr>))"
  by (cases "faults w") (auto simp: accepted_def)

lemma accepted_faults_only: "faults w' = faults w \<Longrightarrow> accepted n w' = accepted n w"
  by (simp add: accepted_def)

lemma command_accepted:
  assumes "accepted (Suc n) w"
  shows "command f w = f (w\<lparr>faults := tl (faults w)\<rparr>)"
proof (cases "faults w")
  case Nil
  then have e: "w\<lparr>faults := tl (faults w)\<rparr> = w" by simp
  show ?thesis unfolding e using Nil by (simp add: command_def)
next
  case (Cons flag fs)
  then have "\<not> flag" using assms by (auto simp: accepted_def)
  then show ?thesis using Cons by (simp add: command_def)
qed

lemma accepted_tl:
  assumes "accepted (Suc n) w"
  shows "accepted n (w\<lparr>faults := tl (faults w)\<rparr>)"
  using assms by (cases "faults w") (auto simp: accepted_def)

lemmas redis_defs = redis_get_refresh_def redis_setex_refresh_def redis_del_refresh_def
  redis_sadd_def redis_expire_def redis_srem_def redis_smembers_def redis_del_user_tokens_def
  redis_setex_blacklist_def redis_exists_blacklist_def redis_refused_def

lemma revoke_never_throws: "fst (revokeRefreshToken t w) = Inr ()"
  by (simp add: revokeRefreshToken_def io_defs split: prod.splits sum.splits option.splits)

lemma revoke_absent:
  assumes "faults w = []" and "refresh_keys w t = None"
  shows "revokeRefreshToken t w = (Inr (), w)"
  using assms by (simp add: revokeRefreshToken_def io_defs redis_defs command_no_faults)

lemma revoke_present:
  assumes "faults w = []" and "refresh_keys w t = Some (d, ttl)"
  shows "faults (snd (revokeRefreshToken t w)) = []"
    and "refresh_keys (snd (revokeRefreshToken t w)) = (refresh_keys w)(t := None)"
    and "blacklist_keys (snd (revokeRefreshToken t w)) = blacklist_keys w"
    and "clock (snd (revokeRefreshToken t w)) = clock w"
    and "uuid_count (snd (revokeRefreshToken t w)) = uuid_count w"
  using assms
  by (simp_all add: revokeRefreshToken_def io_defs redis_defs command_no_faults Let_def
      split: option.splits prod.splits)

lemma revoke_keeps_faultfree:
  assumes "faults w = []"
  shows "faults (snd (revokeRefreshToken t w)) = []"
  using assms
  by (simp add: revokeRefreshToken_def io_defs redis_defs command_no_faults Let_def
      split: option.splits prod.splits)

lemma revoke_removes:
  assumes "faults w = []"
  shows "refresh_keys (snd (revokeRefreshToken t w)) t = None"
  using assms
  by (simp add: revokeRefreshToken_def io_defs redis_defs command_no_faults Let_def
      split: option.splits prod.splits)

lemma revoke_removes_accepted:
  assumes "accepted 3 w"
  shows "refresh_keys (snd (revokeRefreshToken t w)) t = None
       \<and> uuid_count (snd (revokeRefreshToken t w)) = uuid_count w"
proof -
  let ?w1 = "w\<lparr>faults := tl (faults w)\<rparr>"
  have a3: "accepted (Suc 2) w" using assms by (simp add: numeral_3_eq_3 numeral_2_eq_2)
  have g: "redis_get_refresh t w = (Inr (map_option fst (refresh_keys w t)), ?w1)"
    unfolding redis_get_refresh_def by (simp add: command_accepted [OF a3])
  have a2: "accepted (Suc 1) ?w1" using accepted_tl [OF a3] by (simp add: numeral_2_eq_2)
  show ?thesis
  proof (cases "refresh_keys w t")
    case None
    then show ?thesis using g by (simp add: revokeRefreshToken_def io_defs)
  next
    case (Some p)
    obtain d ttl where p: "p = (d, ttl)" by (cases p)
    define w2 where "w2 = snd (redis_srem (userId d) t ?w1)"
    have sr: "fst (redis_srem (userId d) t ?w1) = Inr () \<and> refresh_keys w2 = refresh_keys w
        \<and> uuid_count w2 = uuid_count w \<and> faults w2 = tl (faults ?w1)"
      unfolding redis_srem_def w2_def
      by (cases "user_token_keys w (userId d)") (auto simp: Let_def command_accepted [OF a2])
    then have s: "redis_srem (userId d) t ?w1 = (Inr (), w2)"
      unfolding w2_def by (cases "redis_srem (userId d) t ?w1") simp
    have k2: "refresh_keys w2 = refresh_keys w" and c2: "uuid_count w2 = uuid_count w"
      and f2: "faults w2 = tl (faults ?w1)"
      using sr by simp_all
    have "accepted (Suc 0) (?w1\<lparr>faults := tl (faults ?w1)\<rparr>)"
      using accepted_tl [OF a2] by simp
    then have a1: "accepted (Suc 0) w2"
      using f2 by (simp add: accepted_def)
    have dl: "redis_del_refresh t w2
        = (Inr (), w2\<lparr>faults := tl (faults w2), refresh_keys := (refresh_keys w2)(t := None)\<rparr>)"
      unfolding redis_del_refresh_def by (simp add: command_accepted [OF a1])
    show ?thesis
      using Some p g s dl c2 by (simp add: revokeRefreshToken_def io_defs)
  qed
qed

lemma verify_never_throws: "\<exists>r. fst (verifyRefreshToken t w) = Inr r"
  by (simp add: verifyRefreshToken_def io_defs Let_def split: prod.splits sum.splits option.splits)

lemma verify_absent:
  assumes "refresh_keys w t = None"
  shows "fst (verifyRefreshToken t w) = Inr None"
  using assms
  by (auto simp: verifyRefreshToken_def io_defs redis_get_refresh_def command_def Let_def
      split: prod.splits sum.splits option.splits list.splits)

lemma verify_store_error:
  assumes "faults w = True # fs"
  shows "verifyRefreshToken t w = (Inr None, w\<lparr>faults := fs\<rparr>)"
  using assms
  by (simp add: verifyRefreshToken_def io_defs redis_get_refresh_def command_def)

lemma verify_expired:
  assumes "refresh_keys w t = Some (d, ttl)" and "expiresAt d < toSeconds (clock w)"
  shows "fst (verifyRefreshToken t w) = Inr None"
  using assms
  by (auto simp: verifyRefreshToken_def io_defs redis_get_refresh_def command_def Let_def
      split: prod.splits sum.splits option.splits list.splits)

lemma verify_expired_deletes:
  assumes "refresh_keys w t = Some (d, ttl)" and "expiresAt d < toSeconds (clock w)"
    and "faults w = []"
  shows "refresh_keys (snd (verifyRefreshToken t w)) t = None"
proof -
  have "verifyRefreshToken t w = (Inr None, snd (revokeRefreshToken t w))"
    using assms
    by (simp add: verifyRefreshToken_def io_defs redis_get_refresh_def command_no_faults Let_def
        split: prod.splits sum.splits)
  then show ?thesis using assms(3) by (simp add: revoke_removes)
qed

lemma verify_some:
  assumes "fst (verifyRefreshToken t w) = Inr (Some d)"
  shows "(\<exists>ttl. refresh_keys w t = Some (d, ttl)) \<and> \<not> expiresAt d < toSeconds (clock w)
       \<and> (faults w = [] \<or> (\<exists>fs. faults w = False # fs))
       \<and> snd (verifyRefreshToken t w) = w\<lparr>faults := tl (faults w)\<rparr>"
  using assms
  by (auto simp: verifyRefreshToken_def io_defs redis_get_refresh_def command_def Let_def
      split: prod.splits sum.splits option.splits list.splits if_splits)

lemma verify_live:
  assumes "refresh_keys w t = Some (d, ttl)" and "\<not> expiresAt d < toSeconds (clock w)"
    and "faults w = []"
  shows "verifyRefreshToken t w = (Inr (Some d), w)"
  using assms
  by (simp add: verifyRefreshToken_def io_defs redis_get_refresh_def command_no_faults Let_def)

section \<open>Issuing and rotating\<close>

lemma findOne_cases:
  "findOne e i w = (case users e i of None \<Rightarrow> (Inl (NotFoundException NOT_FOUND_WITH_ID), w) | Some u \<Rightarrow> (Inr u, w))"
  by (simp add: findOne_def io_defs split: option.splits)

lemma gen_access_state: "snd (generateAccessToken e uid r w) = w"
  by (simp add: generateAccessToken_def)

lemma await_snd_preserves:
  assumes "\<And>w. P w \<Longrightarrow> P (snd (m w))" and "\<And>x w. P w \<Longrightarrow> P (snd (f x w))" and "P w"
  shows "P (snd (await m f w))"
proof (cases "m w")
  case (Pair a w')
  have "P w'" using assms(1) [OF assms(3)] Pair by simp
  then show ?thesis using Pair assms(2) by (cases a) (simp_all add: await_def)
qed

lemma setex_refresh_keeps_absent:
  assumes "k \<noteq> t" and "refresh_keys w t = None"
  shows "refresh_keys (snd (redis_setex_refresh k ttl d w)) t = None"
  using assms
  by (simp add: redis_setex_refresh_def command_def split: option.splits list.splits)

lemma sadd_refresh_keys: "refresh_keys (snd (redis_sadd uid m w)) = refresh_keys w"
  by (simp add: redis_sadd_def command_def split: option.splits list.splits prod.splits)

lemma expire_refresh_keys: "refresh_keys (snd (redis_expire uid ttl w)) = refresh_keys w"
  by (simp add: redis_expire_def command_def split: option.splits list.splits prod.splits)

lemma refused_refresh_keys: "refresh_keys (snd (redis_refused w)) = refresh_keys w"
  by (simp add: redis_refused_def command_def split: list.splits)

lemma gen_refresh_keeps_absent:
  assumes "randomUUID e (uuid_count w) \<noteq> t" and "refresh_keys w t = None"
  shows "refresh_keys (snd (generateRefreshToken e uid r opts w)) t = None"
proof -
  let ?P = "\<lambda>w. refresh_keys w t = None"
  let ?w1 = "w\<lparr>uuid_count := Suc (uuid_count w)\<rparr>"
  have chain: "?P (snd (await (redis_setex_refresh (randomUUID e (uuid_count w)) ttl d) (\<lambda>_.
                 await (redis_sadd uid (randomUUID e (uuid_count w))) (\<lambda>_.
                 await (redis_expire uid ttl') (\<lambda>_.
                 return (randomUUID e (uuid_count w))))) ?w1))" for ttl ttl' d
    by (intro await_snd_preserves [where P = ?P])
       (simp_all add: assms(2) setex_refresh_keeps_absent assms(1) sadd_refresh_keys
          expire_refresh_keys return_def)
  have refused: "?P (snd (await redis_refused (\<lambda>_. return (randomUUID e (uuid_count w))) ?w1))"
    by (intro await_snd_preserves [where P = ?P])
       (simp_all add: assms(2) refused_refresh_keys return_def)
  show ?thesis
  proof (cases "plusDays e (clock w) (refreshTokenExpirationDays e)")
    case (Inl err)
    then show ?thesis using assms(2) by (simp add: generateRefreshToken_def Let_def)
  next
    case (Inr x)
    show ?thesis
    proof (cases x)
      case None
      then show ?thesis using Inr refused by (simp add: generateRefreshToken_def Let_def)
    next
      case (Some expiresAtUnix)
      then show ?thesis using Inr chain by (simp add: generateRefreshToken_def Let_def)
    qed
  qed
qed

lemma issue_snd:
  "snd (issueTokens e uid r opts w) = w
   \<or> snd (issueTokens e uid r opts w) = snd (generateRefreshToken e uid r opts w)"
  by (cases "generateRefreshToken e uid r opts w")
     (simp add: issueTokens_def generateAccessToken_def io_defs Let_def split: sum.splits)

lemma issue_keeps_absent:
  assumes "randomUUID e (uuid_count w) \<noteq> t" and "refresh_keys w t = None"
  shows "refresh_keys (snd (issueTokens e uid r opts w)) t = None"
  using issue_snd [of e uid r opts w] gen_refresh_keeps_absent [OF assms, of uid r opts] assms(2)
  by auto

lemma flow_absent:
  assumes "refresh_keys w t = None"
  shows "fst (refreshToken_flow e t opts w) = Inl (UnauthorizedException INVALID_REFRESH_TOKEN)"
proof -
  have "fst (verifyRefreshToken t w) = Inr None" using assms by (rule verify_absent)
  then obtain wv where "verifyRefreshToken t w = (Inr None, wv)"
    by (cases "verifyRefreshToken t w") simp
  then show ?thesis
    by (simp add: refreshToken_flow_def io_defs)
qed

lemma flow_success_removes:
  assumes ff: "accepted 4 w"
    and fresh: "randomUUID e (uuid_count w) \<noteq> t"
    and ok: "refreshToken_flow e t opts w = (Inr r, w1)"
  shows "refresh_keys w1 t = None"
proof -
  obtain v wv where v: "verifyRefreshToken t w = (v, wv)" by (cases "verifyRefreshToken t w")
  obtain td where td: "v = Inr (Some td)"
    using ok v verify_never_throws [of t w]
    by (cases v) (auto simp: refreshToken_flow_def io_defs split: option.splits)
  have wv: "wv = w\<lparr>faults := tl (faults w)\<rparr>"
    using verify_some [of t w td] v td by simp
  have a4: "accepted (Suc 3) w" using ff by (simp add: eval_nat_numeral)
  have a3: "accepted 3 wv" unfolding wv using accepted_tl [OF a4] .
  obtain u where u: "users e (userId td) = Some u"
    using ok v td
    by (cases "users e (userId td)") (auto simp: refreshToken_flow_def io_defs findOne_cases)
  obtain w2 where rv: "revokeRefreshToken t wv = (Inr (), w2)"
    using revoke_never_throws [of t wv] by (cases "revokeRefreshToken t wv") simp
  have n2: "refresh_keys w2 t = None" and c2: "uuid_count w2 = uuid_count wv"
    using revoke_removes_accepted [OF a3, of t] rv by simp_all
  have c3: "uuid_count wv = uuid_count w" unfolding wv by simp
  have "refreshToken_flow e t opts w = issueTokens e (user_id u) (user_role u) opts w2"
    using v td u rv by (simp add: refreshToken_flow_def io_defs findOne_cases)
  then have "w1 = snd (issueTokens e (user_id u) (user_role u) opts w2)"
    using ok by (metis snd_conv)
  then show ?thesis using issue_keeps_absent [of e w2 t] fresh n2 c2 c3 by simp
qed

section \<open>Blacklisting and revoking all tokens of a user\<close>

lemma blacklist_never_throws: "fst (blacklistAccessToken e a w) = Inr ()"
  by (simp add: blacklistAccessToken_def io_defs split: prod.splits sum.splits option.splits)

lemma blacklist_future:
  assumes "faults w = []" and "expiry_claim e a = Some x" and "clock w div 1000 < x"
  shows "blacklistAccessToken e a w
           = (Inr (), w\<lparr>blacklist_keys := (blacklist_keys w)(a \<mapsto> (''1'', x - clock w div 1000))\<rparr>)"
  using assms
  by (simp add: blacklistAccessToken_def expiry_claim_def io_defs redis_setex_blacklist_def
      command_no_faults Let_def split: sum.splits)

lemma blacklist_unreadable:
  assumes "faults w = []" and "expiry_claim e a = None"
    and "accessTokenExpirationSeconds e = Some n" and "0 < n"
  shows "blacklistAccessToken e a w
           = (Inr (), w\<lparr>blacklist_keys := (blacklist_keys w)(a \<mapsto> (''1'', n))\<rparr>)"
  using assms
  by (simp add: blacklistAccessToken_def expiry_claim_def io_defs redis_setex_blacklist_def
      command_no_faults Let_def split: sum.splits)

lemma blacklist_past:
  assumes "expiry_claim e a = Some x" and "x \<le> clock w div 1000"
  shows "blacklistAccessToken e a w = (Inr (), w)"
  using assms
  by (simp add: blacklistAccessToken_def expiry_claim_def io_defs Let_def split: sum.splits)

lemma is_blacklisted_no_faults:
  assumes "faults w = []"
  shows "isAccessTokenBlacklisted a w = (Inr (blacklist_keys w a \<noteq> None), w)"
  using assms
  by (simp add: isAccessTokenBlacklisted_def io_defs redis_exists_blacklist_def command_no_faults)

lemma promise_all_dels:
  assumes "faults w = []"
  shows "\<exists>w'. promise_all (map redis_del_refresh toks @ [redis_del_user_tokens uid]) w = (Inr (), w')
           \<and> (\<forall>k. refresh_keys w' k = (if k \<in> set toks then None else refresh_keys w k))
           \<and> (\<forall>u. user_token_keys w' u = (if u = uid then None else user_token_keys w u))
           \<and> blacklist_keys w' = blacklist_keys w \<and> faults w' = []
           \<and> clock w' = clock w \<and> uuid_count w' = uuid_count w"
  using assms
proof (induction toks arbitrary: w)
  case Nil
  then show ?case
    by (simp add: redis_del_user_tokens_def command_no_faults)
next
  case (Cons tok toks)
  let ?w1 = "w\<lparr>refresh_keys := (refresh_keys w)(tok := None)\<rparr>"
  have d: "redis_del_refresh tok w = (Inr (), ?w1)"
    using Cons.prems by (simp add: redis_del_refresh_def command_no_faults)
  have f1: "faults ?w1 = []" using Cons.prems by simp
  obtain w' where w': "promise_all (map redis_del_refresh toks @ [redis_del_user_tokens uid]) ?w1 = (Inr (), w')"
    and k: "\<forall>k. refresh_keys w' k = (if k \<in> set toks then None else refresh_keys ?w1 k)"
    and u: "\<forall>u. user_token_keys w' u = (if u = uid then None else user_token_keys ?w1 u)"
    and r: "blacklist_keys w' = blacklist_keys ?w1" "faults w' = []"
           "clock w' = clock ?w1" "uuid_count w' = uuid_count ?w1"
    using Cons.IH [OF f1] by blast
  have "promise_all (map redis_del_refresh (tok # toks) @ [redis_del_user_tokens uid]) w = (Inr (), w')"
    using d w' by simp
  moreover have "\<forall>k. refresh_keys w' k = (if k \<in> set (tok # toks) then None else refresh_keys w k)"
    using k by simp
  moreover have "\<forall>u. user_token_keys w' u = (if u = uid then None else user_token_keys w u)"
    using u by simp
  ultimately show ?case using r by simp
qed

lemma revoke_user_no_faults:
  assumes "faults w = []" and "user_token_keys w uid = Some (members, ttl)"
  shows "\<exists>w'. revokeUserRefreshTokens uid w = (Inr (), w')
           \<and> (\<forall>k. k \<in> set members \<longrightarrow> refresh_keys w' k = None)
           \<and> (\<forall>k. k \<notin> set members \<longrightarrow> refresh_keys w' k = refresh_keys w k)
           \<and> (\<forall>u. u \<noteq> uid \<longrightarrow> user_token_keys w' u = user_token_keys w u)
           \<and> (members \<noteq> [] \<longrightarrow> user_token_keys w' uid = None)
           \<and> blacklist_keys w' = blacklist_keys w \<and> faults w' = []
           \<and> clock w' = clock w \<and> uuid_count w' = uuid_count w"
proof (cases "members = []")
  case True
  then have "revokeUserRefreshTokens uid w = (Inr (), w)"
    using assms
    by (simp add: revokeUserRefreshTokens_def io_defs redis_smembers_def command_no_faults)
  then show ?thesis using assms True by simp
next
  case False
  obtain w' where w': "promise_all (map redis_del_refresh members @ [redis_del_user_tokens uid]) w = (Inr (), w')"
    and k: "\<forall>k. refresh_keys w' k = (if k \<in> set members then None else refresh_keys w k)"
    and u: "\<forall>u. user_token_keys w' u = (if u = uid then None else user_token_keys w u)"
    and r: "blacklist_keys w' = blacklist_keys w" "faults w' = []"
           "clock w' = clock w" "uuid_count w' = uuid_count w"
    using promise_all_dels [OF assms(1), of members uid] by blast
  have "revokeUserRefreshTokens uid w = (Inr (), w')"
    using assms False w'
    by (simp add: revokeUserRefreshTokens_def io_defs redis_smembers_def command_no_faults)
  then show ?thesis using k u r by simp
qed

lemma revoke_user_no_set:
  assumes "faults w = []" and "user_token_keys w uid = None"
  shows "revokeUserRefreshTokens uid w = (Inr (), w)"
  using assms
  by (simp add: revokeUserRefreshTokens_def io_defs redis_smembers_def command_no_faults)

lemma revoke_user_never_throws: "fst (revokeUserRefreshTokens uid w) = Inr ()"
  by (simp add: revokeUserRefreshTokens_def io_defs split: prod.splits sum.splits)

lemma revoke_user_removes_members:
  assumes "faults w = []" and "user_token_keys w uid = Some (members, ttl)" and "tok \<in> set members"
  shows "refresh_keys (snd (revokeUserRefreshTokens uid w)) tok = None"
  using revoke_user_no_faults [OF assms(1,2)] assms(3) by auto

lemma revoke_user_keeps_blacklist:
  assumes "faults w = []"
  shows "blacklist_keys (snd (revokeUserRefreshTokens uid w)) = blacklist_keys w
       \<and> faults (snd (revokeUserRefreshTokens uid w)) = []"
proof (cases "user_token_keys w uid")
  case None
  then show ?thesis using assms by (simp add: revoke_user_no_set)
next
  case (Some p)
  then obtain members ttl where "user_token_keys w uid = Some (members, ttl)" by (cases p) simp
  then show ?thesis using revoke_user_no_faults [OF assms, of uid members ttl] by auto
qed

lemma logout_order:
  "logout e uid a w = revokeUserRefreshTokens uid (snd (blacklistAccessToken e a w))"
  using blacklist_never_throws [of e a w]
  by (cases "blacklistAccessToken e a w") (simp add: logout_def await_def)

text \<open>The same, when only the first command is known to be answered, or none.\<close>

lemma setex_blacklist_accepted:
  assumes "accepted 1 w" and "0 < n"
  shows "redis_setex_blacklist a (Some n) v w
           = (Inr (), w\<lparr>faults := tl (faults w),
                         blacklist_keys := (blacklist_keys w)(a \<mapsto> (v, n))\<rparr>)"
proof -
  have a1: "accepted (Suc 0) w" using assms(1) by simp
  show ?thesis
    unfolding redis_setex_blacklist_def using assms(2)
    by (simp add: command_accepted [OF a1])
qed

lemma blacklist_future_accepted:
  assumes "accepted 1 w" and "expiry_claim e a = Some x" and "clock w div 1000 < x"
  shows "blacklistAccessToken e a w
           = (Inr (), w\<lparr>faults := tl (faults w),
                         blacklist_keys := (blacklist_keys w)(a \<mapsto> (''1'', x - clock w div 1000))\<rparr>)"
proof -
  have n: "0 < x - clock w div 1000" using assms(3) by simp
  show ?thesis
    using assms(2,3)
    by (simp add: blacklistAccessToken_def expiry_claim_def io_defs Let_def
        setex_blacklist_accepted [OF assms(1) n] split: sum.splits)
qed

lemma blacklist_unreadable_accepted:
  assumes "accepted 1 w" and "expiry_claim e a = None"
    and "accessTokenExpirationSeconds e = Some n" and "0 < n"
  shows "blacklistAccessToken e a w
           = (Inr (), w\<lparr>faults := tl (faults w),
                         blacklist_keys := (blacklist_keys w)(a \<mapsto> (''1'', n))\<rparr>)"
  using assms(2,3)
  by (simp add: blacklistAccessToken_def expiry_claim_def io_defs Let_def
      setex_blacklist_accepted [OF assms(1,4)] split: sum.splits)

lemma is_blacklisted_accepted:
  assumes "accepted 1 w"
  shows "isAccessTokenBlacklisted a w
           = (Inr (blacklist_keys w a \<noteq> None), w\<lparr>faults := tl (faults w)\<rparr>)"
proof -
  have a1: "accepted (Suc 0) w" using assms by simp
  show ?thesis
    by (simp add: isAccessTokenBlacklisted_def io_defs redis_exists_blacklist_def
        command_accepted [OF a1])
qed

lemma is_blacklisted_absent:
  assumes "blacklist_keys w a = None"
  shows "fst (isAccessTokenBlacklisted a w) = Inr False"
  using assms
  by (simp add: isAccessTokenBlacklisted_def io_defs redis_exists_blacklist_def command_def
      split: list.splits)

lemma is_blacklisted_rejected:
  assumes "faults w = True # fs"
  shows "isAccessTokenBlacklisted a w = (Inr False, w\<lparr>faults := fs\<rparr>)"
  using assms
  by (simp add: isAccessTokenBlacklisted_def io_defs redis_exists_blacklist_def command_def)

lemma promise_all_keeps_blacklist:
  assumes "\<And>p w. p \<in> set ps \<Longrightarrow> blacklist_keys (snd (p w)) = blacklist_keys w"
  shows "blacklist_keys (snd (promise_all ps w)) = blacklist_keys w"
  using assms
proof (induction ps arbitrary: w)
  case Nil
  then show ?case by simp
next
  case (Cons p ps)
  obtain r w' where p: "p w = (r, w')" by (cases "p w")
  obtain rs w'' where ps: "promise_all ps w' = (rs, w'')" by (cases "promise_all ps w'")
  have "blacklist_keys w' = blacklist_keys w" using Cons.prems [of p w] p by simp
  moreover have "blacklist_keys w'' = blacklist_keys w'"
    using Cons.IH [of w'] Cons.prems ps by simp
  ultimately show ?case using p ps by simp
qed

lemma del_keeps_blacklist:
  "blacklist_keys (snd (redis_del_refresh k w)) = blacklist_keys w"
  "blacklist_keys (snd (redis_del_user_tokens uid w)) = blacklist_keys w"
  "blacklist_keys (snd (redis_smembers uid w)) = blacklist_keys w"
  by (simp_all add: redis_del_refresh_def redis_del_user_tokens_def redis_smembers_def
      command_def split: list.splits)

lemma revoke_user_keeps_blacklist_any:
  "blacklist_keys (snd (revokeUserRefreshTokens uid w)) = blacklist_keys w"
proof -
  obtain r w1 where m: "redis_smembers uid w = (r, w1)" by (cases "redis_smembers uid w")
  have b1: "blacklist_keys w1 = blacklist_keys w"
    using del_keeps_blacklist(3) [of uid w] m by simp
  show ?thesis
  proof (cases r)
    case (Inl err)
    then show ?thesis using m b1 by (simp add: revokeUserRefreshTokens_def io_defs)
  next
    case (Inr toks)
    let ?ps = "map redis_del_refresh toks @ [redis_del_user_tokens uid]"
    have "blacklist_keys (snd (promise_all ?ps w1)) = blacklist_keys w1"
      by (rule promise_all_keeps_blacklist) (auto simp: del_keeps_blacklist)
    then show ?thesis
      using m Inr b1
      by (cases "promise_all ?ps w1")
         (auto simp: revokeUserRefreshTokens_def io_defs split: sum.splits)
  qed
qed

lemma blacklist_keeps_refresh:
  "refresh_keys (snd (blacklistAccessToken e a w)) = refresh_keys w
 \<and> user_token_keys (snd (blacklistAccessToken e a w)) = user_token_keys w
 \<and> (faults w = [] \<longrightarrow> faults (snd (blacklistAccessToken e a w)) = [])"
  by (simp add: blacklistAccessToken_def io_defs redis_setex_blacklist_def command_def Let_def
      split: prod.splits sum.splits option.splits list.splits)

lemma logout_marked:
  assumes "accepted 1 w"
    and "case expiry_claim e a of
           Some x \<Rightarrow> clock w div 1000 < x
         | None \<Rightarrow> (case accessTokenExpirationSeconds e of Some n \<Rightarrow> 0 < n | None \<Rightarrow> False)"
  shows "blacklist_keys (snd (logout e uid a w)) a \<noteq> None"
proof -
  have "blacklist_keys (snd (blacklistAccessToken e a w)) a \<noteq> None"
  proof (cases "expiry_claim e a")
    case None
    then obtain n where "accessTokenExpirationSeconds e = Some n" "0 < n"
      using assms(2) by (auto split: option.splits)
    then show ?thesis using blacklist_unreadable_accepted [OF assms(1) None] by simp
  next
    case (Some x)
    then have "clock w div 1000 < x" using assms(2) by simp
    then show ?thesis using blacklist_future_accepted [OF assms(1) Some] by simp
  qed
  then show ?thesis by (simp add: logout_order revoke_user_keeps_blacklist_any)
qed

lemma logout_removes_members:
  assumes "faults w = []" and "user_token_keys w uid = Some (members, ttl)" and "tok \<in> set members"
  shows "refresh_keys (snd (logout e uid a w)) tok = None"
proof -
  let ?wb = "snd (blacklistAccessToken e a w)"
  have "faults ?wb = []" and "user_token_keys ?wb uid = Some (members, ttl)"
    using blacklist_keeps_refresh [of e a w] assms(1,2) by simp_all
  then have "refresh_keys (snd (revokeUserRefreshTokens uid ?wb)) tok = None"
    using assms(3) by (rule revoke_user_removes_members)
  then show ?thesis by (simp add: logout_order)
qed

lemma logout_expired_unmarked:
  assumes "expiry_claim e a = Some x" and "x \<le> clock w div 1000" and "blacklist_keys w a = None"
  shows "blacklist_keys (snd (logout e uid a w)) a = None"
  using assms
  by (simp add: logout_order blacklist_past revoke_user_keeps_blacklist_any)

section \<open>Every stored token stays in the set of its owner\<close>

lemma indexed_empty:
  "indexed \<lparr>refresh_keys = Map.empty, user_token_keys = Map.empty, blacklist_keys = b,
            faults = fs, clock = c, uuid_count = n\<rparr>"
  by (simp add: indexed_def)

lemma indexed_blacklist:
  assumes "indexed w"
  shows "indexed (snd (blacklistAccessToken e a w))"
proof -
  have "refresh_keys (snd (blacklistAccessToken e a w)) = refresh_keys w
      \<and> user_token_keys (snd (blacklistAccessToken e a w)) = user_token_keys w"
    by (simp add: blacklistAccessToken_def io_defs redis_setex_blacklist_def command_def Let_def
        split: prod.splits sum.splits option.splits list.splits)
  then show ?thesis using assms by (simp add: indexed_def)
qed

lemma setex_refresh_no_faults:
  assumes "faults w = []"
  shows "redis_setex_refresh tok ttl d w =
     (case ttl of
        None \<Rightarrow> (Inl StoreError, w)
      | Some n \<Rightarrow> if n \<le> 0 then (Inl StoreError, w)
                  else (Inr (), w\<lparr>refresh_keys := (refresh_keys w)(tok \<mapsto> (d, n))\<rparr>))"
  using assms by (simp add: redis_setex_refresh_def command_no_faults)

lemma sadd_no_faults:
  assumes "faults w = []"
  shows "fst (redis_sadd uid tok w) = Inr ()"
    and "faults (snd (redis_sadd uid tok w)) = []"
    and "refresh_keys (snd (redis_sadd uid tok w)) = refresh_keys w"
    and "\<exists>members t'. user_token_keys (snd (redis_sadd uid tok w)) uid = Some (members, t')
           \<and> tok \<in> set members
           \<and> (\<forall>ms t. user_token_keys w uid = Some (ms, t) \<longrightarrow> set ms \<subseteq> set members)"
    and "\<forall>u. u \<noteq> uid \<longrightarrow> user_token_keys (snd (redis_sadd uid tok w)) u = user_token_keys w u"
  using assms
  by (cases "user_token_keys w uid"; auto simp: redis_sadd_def command_no_faults)+

lemma expire_no_faults:
  assumes "faults w = []" and "0 < n" and "user_token_keys w uid = Some (members, t)"
  shows "redis_expire uid (Some n) w =
     (Inr (), w\<lparr>user_token_keys := (user_token_keys w)(uid \<mapsto> (members, Some n))\<rparr>)"
  using assms by (simp add: redis_expire_def command_no_faults)

lemma store_chain_no_faults:
  assumes ff: "faults w = []"
  shows "faults (snd (await (redis_setex_refresh tok ttl d) (\<lambda>_.
                 await (redis_sadd uid tok) (\<lambda>_.
                 await (redis_expire uid ttl) (\<lambda>_. return tok))) w)) = []"
    and "(refresh_keys (snd (await (redis_setex_refresh tok ttl d) (\<lambda>_.
                 await (redis_sadd uid tok) (\<lambda>_.
                 await (redis_expire uid ttl) (\<lambda>_. return tok))) w)) = refresh_keys w
          \<and> user_token_keys (snd (await (redis_setex_refresh tok ttl d) (\<lambda>_.
                 await (redis_sadd uid tok) (\<lambda>_.
                 await (redis_expire uid ttl) (\<lambda>_. return tok))) w)) = user_token_keys w)
       \<or> ((\<exists>n. refresh_keys (snd (await (redis_setex_refresh tok ttl d) (\<lambda>_.
                 await (redis_sadd uid tok) (\<lambda>_.
                 await (redis_expire uid ttl) (\<lambda>_. return tok))) w)) tok = Some (d, n))
          \<and> (\<forall>k. k \<noteq> tok \<longrightarrow>
                 refresh_keys (snd (await (redis_setex_refresh tok ttl d) (\<lambda>_.
                 await (redis_sadd uid tok) (\<lambda>_.
                 await (redis_expire uid ttl) (\<lambda>_. return tok))) w)) k = refresh_keys w k)
          \<and> (\<exists>members t'. user_token_keys (snd (await (redis_setex_refresh tok ttl d) (\<lambda>_.
                 await (redis_sadd uid tok) (\<lambda>_.
                 await (redis_expire uid ttl) (\<lambda>_. return tok))) w)) uid = Some (members, t')
                \<and> tok \<in> set members
                \<and> (\<forall>ms t. user_token_keys w uid = Some (ms, t) \<longrightarrow> set ms \<subseteq> set members))
          \<and> (\<forall>u. u \<noteq> uid \<longrightarrow>
                 user_token_keys (snd (await (redis_setex_refresh tok ttl d) (\<lambda>_.
                 await (redis_sadd uid tok) (\<lambda>_.
                 await (redis_expire uid ttl) (\<lambda>_. return tok))) w)) u = user_token_keys w u))"
proof -
  let ?chain = "await (redis_setex_refresh tok ttl d) (\<lambda>_.
                 await (redis_sadd uid tok) (\<lambda>_.
                 await (redis_expire uid ttl) (\<lambda>_. return tok))) w"
  have both: "faults (snd ?chain) = []
     \<and> ((refresh_keys (snd ?chain) = refresh_keys w \<and> user_token_keys (snd ?chain) = user_token_keys w)
       \<or> ((\<exists>n. refresh_keys (snd ?chain) tok = Some (d, n))
          \<and> (\<forall>k. k \<noteq> tok \<longrightarrow> refresh_keys (snd ?chain) k = refresh_keys w k)
          \<and> (\<exists>members t'. user_token_keys (snd ?chain) uid = Some (members, t')
                \<and> tok \<in> set members
                \<and> (\<forall>ms t. user_token_keys w uid = Some (ms, t) \<longrightarrow> set ms \<subseteq> set members))
          \<and> (\<forall>u. u \<noteq> uid \<longrightarrow> user_token_keys (snd ?chain) u = user_token_keys w u)))"
  proof (cases "\<exists>n. ttl = Some n \<and> 0 < n")
    case False
    then have "redis_setex_refresh tok ttl d w = (Inl StoreError, w)"
      using setex_refresh_no_faults [OF ff, of tok ttl d]
      by (cases ttl) (auto split: if_splits)
    then have "?chain = (Inl StoreError, w)" by (simp add: await_def)
    then show ?thesis using ff by simp
  next
    case True
    then obtain n where ttl: "ttl = Some n" and n: "0 < n" by blast
    let ?w1 = "w\<lparr>refresh_keys := (refresh_keys w)(tok \<mapsto> (d, n))\<rparr>"
    have s1: "redis_setex_refresh tok ttl d w = (Inr (), ?w1)"
      using setex_refresh_no_faults [OF ff, of tok ttl d] ttl n by simp
    have f1: "faults ?w1 = []" using ff by simp
    define w2 where "w2 = snd (redis_sadd uid tok ?w1)"
    note sa = sadd_no_faults [OF f1, of uid tok, folded w2_def]
    have s2: "redis_sadd uid tok ?w1 = (Inr (), w2)"
      using sa(1) unfolding w2_def by (cases "redis_sadd uid tok ?w1") simp
    obtain members t' where m: "user_token_keys w2 uid = Some (members, t')"
      and mem: "tok \<in> set members"
      and old: "\<forall>ms t. user_token_keys w uid = Some (ms, t) \<longrightarrow> set ms \<subseteq> set members"
      using sa(4) by auto
    let ?w3 = "w2\<lparr>user_token_keys := (user_token_keys w2)(uid \<mapsto> (members, Some n))\<rparr>"
    have s3: "redis_expire uid ttl w2 = (Inr (), ?w3)"
      unfolding ttl using sa(2) n m by (rule expire_no_faults)
    have c: "?chain = (Inr tok, ?w3)"
      using s1 s2 s3 by (simp add: await_def return_def)
    have k: "refresh_keys ?w3 = (refresh_keys w)(tok \<mapsto> (d, n))"
      using sa(3) by simp
    have others: "\<forall>u. u \<noteq> uid \<longrightarrow> user_token_keys ?w3 u = user_token_keys w u"
      using sa(5) by simp
    have "faults ?w3 = []" using sa(2) by simp
    moreover have "\<exists>n. refresh_keys ?w3 tok = Some (d, n)" using k by simp
    moreover have "\<forall>k. k \<noteq> tok \<longrightarrow> refresh_keys ?w3 k = refresh_keys w k" using k by simp
    moreover have "\<exists>members t'. user_token_keys ?w3 uid = Some (members, t') \<and> tok \<in> set members
                \<and> (\<forall>ms t. user_token_keys w uid = Some (ms, t) \<longrightarrow> set ms \<subseteq> set members)"
      using mem old by simp
    ultimately show ?thesis unfolding c using others by simp
  qed
  show "faults (snd ?chain) = []" using both by blast
  show "(refresh_keys (snd ?chain) = refresh_keys w \<and> user_token_keys (snd ?chain) = user_token_keys w)
       \<or> ((\<exists>n. refresh_keys (snd ?chain) tok = Some (d, n))
          \<and> (\<forall>k. k \<noteq> tok \<longrightarrow> refresh_keys (snd ?chain) k = refresh_keys w k)
          \<and> (\<exists>members t'. user_token_keys (snd ?chain) uid = Some (members, t')
                \<and> tok \<in> set members
                \<and> (\<forall>ms t. user_token_keys w uid = Some (ms, t) \<longrightarrow> set ms \<subseteq> set members))
          \<and> (\<forall>u. u \<noteq> uid \<longrightarrow> user_token_keys (snd ?chain) u = user_token_keys w u))"
    using both by blast
qed

lemma generate_outcome:
  assumes "faults w = []"
  shows "faults (snd (generateRefreshToken e uid r opts w)) = []"
    and "(refresh_keys (snd (generateRefreshToken e uid r opts w)) = refresh_keys w
          \<and> user_token_keys (snd (generateRefreshToken e uid r opts w)) = user_token_keys w)
       \<or> ((\<exists>d n. refresh_keys (snd (generateRefreshToken e uid r opts w)) (randomUUID e (uuid_count w))
                    = Some (d, n) \<and> userId d = uid)
          \<and> (\<forall>k. k \<noteq> randomUUID e (uuid_count w) \<longrightarrow>
                 refresh_keys (snd (generateRefreshToken e uid r opts w)) k = refresh_keys w k)
          \<and> (\<exists>members t'. user_token_keys (snd (generateRefreshToken e uid r opts w)) uid
                    = Some (members, t')
                \<and> randomUUID e (uuid_count w) \<in> set members
                \<and> (\<forall>ms t. user_token_keys w uid = Some (ms, t) \<longrightarrow> set ms \<subseteq> set members))
          \<and> (\<forall>u. u \<noteq> uid \<longrightarrow>
                 user_token_keys (snd (generateRefreshToken e uid r opts w)) u = user_token_keys w u))"
proof -
  let ?w1 = "w\<lparr>uuid_count := Suc (uuid_count w)\<rparr>"
  let ?tok = "randomUUID e (uuid_count w)"
  have f1: "faults ?w1 = []" using assms by simp
  note chain = store_chain_no_faults [OF f1]
  show "faults (snd (generateRefreshToken e uid r opts w)) = []"
  proof (cases "plusDays e (clock w) (refreshTokenExpirationDays e)")
    case (Inl err)
    then show ?thesis using assms by (simp add: generateRefreshToken_def Let_def)
  next
    case (Inr x)
    show ?thesis
    proof (cases x)
      case None
      then show ?thesis using Inr assms
        by (simp add: generateRefreshToken_def Let_def io_defs redis_defs command_no_faults)
    next
      case (Some expiresAtUnix)
      then show ?thesis using Inr chain(1)
        by (simp add: generateRefreshToken_def Let_def)
    qed
  qed
  show "(refresh_keys (snd (generateRefreshToken e uid r opts w)) = refresh_keys w
          \<and> user_token_keys (snd (generateRefreshToken e uid r opts w)) = user_token_keys w)
       \<or> ((\<exists>d n. refresh_keys (snd (generateRefreshToken e uid r opts w)) ?tok
                    = Some (d, n) \<and> userId d = uid)
          \<and> (\<forall>k. k \<noteq> ?tok \<longrightarrow>
                 refresh_keys (snd (generateRefreshToken e uid r opts w)) k = refresh_keys w k)
          \<and> (\<exists>members t'. user_token_keys (snd (generateRefreshToken e uid r opts w)) uid
                    = Some (members, t')
                \<and> ?tok \<in> set members
                \<and> (\<forall>ms t. user_token_keys w uid = Some (ms, t) \<longrightarrow> set ms \<subseteq> set members))
          \<and> (\<forall>u. u \<noteq> uid \<longrightarrow>
                 user_token_keys (snd (generateRefreshToken e uid r opts w)) u = user_token_keys w u))"
  proof (cases "plusDays e (clock w) (refreshTokenExpirationDays e)")
    case (Inl err)
    then show ?thesis by (simp add: generateRefreshToken_def Let_def)
  next
    case (Inr x)
    show ?thesis
    proof (cases x)
      case None
      then show ?thesis using Inr assms
        by (simp add: generateRefreshToken_def Let_def io_defs redis_defs command_no_faults)
    next
      case (Some expiresAtUnix)
      let ?d = "\<lparr>userId = uid, role = r, expiresAt = expiresAtUnix,
                 createdAt = toSeconds (clock w + elapsed e (uuid_count w)),
                 ipAddress = (case opts of None \<Rightarrow> None | Some opt \<Rightarrow> opt_ipAddress opt),
                 userAgent = (case opts of None \<Rightarrow> None | Some opt \<Rightarrow> opt_userAgent opt)\<rparr>"
      let ?ttl = "map_option floor (to_double (expiresAtUnix - toSeconds (clock w + elapsed e (uuid_count w))))"
      have g: "generateRefreshToken e uid r opts w =
          await (redis_setex_refresh ?tok ?ttl ?d) (\<lambda>_.
                 await (redis_sadd uid ?tok) (\<lambda>_.
                 await (redis_expire uid ?ttl) (\<lambda>_. return ?tok))) ?w1"
        using Inr Some by (simp add: generateRefreshToken_def Let_def)
      let ?w' = "snd (generateRefreshToken e uid r opts w)"
      have k0: "refresh_keys ?w1 = refresh_keys w" and u0: "user_token_keys ?w1 = user_token_keys w"
        by simp_all
      consider (same) "refresh_keys ?w' = refresh_keys w" "user_token_keys ?w' = user_token_keys w"
        | (added) "\<exists>n. refresh_keys ?w' ?tok = Some (?d, n)"
            "\<forall>k. k \<noteq> ?tok \<longrightarrow> refresh_keys ?w' k = refresh_keys w k"
            "\<exists>members t'. user_token_keys ?w' uid = Some (members, t') \<and> ?tok \<in> set members
               \<and> (\<forall>ms t. user_token_keys w uid = Some (ms, t) \<longrightarrow> set ms \<subseteq> set members)"
            "\<forall>u. u \<noteq> uid \<longrightarrow> user_token_keys ?w' u = user_token_keys w u"
        using chain(2) [of ?tok ?ttl ?d uid] unfolding g k0 u0 by fast
      then show ?thesis
      proof cases
        case same
        then show ?thesis by simp
      next
        case added
        obtain n where "refresh_keys ?w' ?tok = Some (?d, n)" using added(1) by fast
        then have "\<exists>d n. refresh_keys ?w' ?tok = Some (d, n) \<and> userId d = uid"
          by (intro exI [of _ ?d] exI [of _ n]) simp
        then show ?thesis using added(2,3,4) by fast
      qed
    qed
  qed
qed

lemma indexed_generate:
  assumes ff: "faults w = []" and ix: "indexed w"
  shows "indexed (snd (generateRefreshToken e uid r opts w))"
proof -
  let ?tok = "randomUUID e (uuid_count w)"
  let ?w' = "snd (generateRefreshToken e uid r opts w)"
  consider (same) "refresh_keys ?w' = refresh_keys w" "user_token_keys ?w' = user_token_keys w"
    | (added) "\<exists>d n. refresh_keys ?w' ?tok = Some (d, n) \<and> userId d = uid"
        "\<forall>k. k \<noteq> ?tok \<longrightarrow> refresh_keys ?w' k = refresh_keys w k"
        "\<exists>members t'. user_token_keys ?w' uid = Some (members, t') \<and> ?tok \<in> set members
           \<and> (\<forall>ms t. user_token_keys w uid = Some (ms, t) \<longrightarrow> set ms \<subseteq> set members)"
        "\<forall>u. u \<noteq> uid \<longrightarrow> user_token_keys ?w' u = user_token_keys w u"
    using generate_outcome(2) [OF ff, of e uid r opts] by blast
  then show ?thesis
  proof cases
    case same
    then show ?thesis using ix by (simp add: indexed_def)
  next
    case added
    obtain d n where rk: "refresh_keys ?w' ?tok = Some (d, n)" and ud: "userId d = uid"
      using added(1) by blast
    obtain members t' where uk: "user_token_keys ?w' uid = Some (members, t')"
      and mem: "?tok \<in> set members"
      and old: "\<forall>ms t. user_token_keys w uid = Some (ms, t) \<longrightarrow> set ms \<subseteq> set members"
      using added(3) by blast
    show ?thesis
      unfolding indexed_def
    proof (intro allI impI)
      fix token d' ttl'
      assume a: "refresh_keys ?w' token = Some (d', ttl')"
      show "\<exists>members ttl''. user_token_keys ?w' (userId d') = Some (members, ttl'') \<and> token \<in> set members"
      proof (cases "token = ?tok")
        case True
        then have "d' = d" using a rk by simp
        then show ?thesis using True uk ud mem by simp
      next
        case False
        then have "refresh_keys w token = Some (d', ttl')" using a added(2) by simp
        then obtain ms t where o: "user_token_keys w (userId d') = Some (ms, t)" "token \<in> set ms"
          using ix unfolding indexed_def by blast
        show ?thesis
        proof (cases "userId d' = uid")
          case True
          then show ?thesis using o old uk by auto
        next
          case False
          then show ?thesis using o added(4) by simp
        qed
      qed
    qed
  qed
qed

lemma indexed_revoke:
  assumes ff: "faults w = []" and ix: "indexed w"
  shows "indexed (snd (revokeRefreshToken t w))"
proof (cases "refresh_keys w t")
  case None
  then show ?thesis using ff ix by (simp add: revoke_absent)
next
  case (Some p)
  obtain d ttl where p: "p = (d, ttl)" by (cases p)
  let ?w' = "snd (revokeRefreshToken t w)"
  have rk: "refresh_keys ?w' = (refresh_keys w)(t := None)"
    using revoke_present(2) [OF ff Some [unfolded p]] .
  have uk: "\<forall>u ms tt tok. user_token_keys w u = Some (ms, tt) \<and> tok \<in> set ms \<and> tok \<noteq> t \<longrightarrow>
              (\<exists>ms' tt'. user_token_keys ?w' u = Some (ms', tt') \<and> tok \<in> set ms')"
    using ff Some p
    by (auto simp: revokeRefreshToken_def io_defs redis_defs command_no_faults Let_def
        filter_empty_conv split: option.splits)
  show ?thesis
    unfolding indexed_def
  proof (intro allI impI)
    fix token d' ttl'
    assume a: "refresh_keys ?w' token = Some (d', ttl')"
    then have ne: "token \<noteq> t" and b: "refresh_keys w token = Some (d', ttl')"
      using rk by (auto split: if_splits)
    obtain ms tt where "user_token_keys w (userId d') = Some (ms, tt)" "token \<in> set ms"
      using ix b unfolding indexed_def by blast
    then show "\<exists>members ttl''. user_token_keys ?w' (userId d') = Some (members, ttl'') \<and> token \<in> set members"
      using uk ne by blast
  qed
qed

lemma indexed_revoke_user:
  assumes ff: "faults w = []" and ix: "indexed w"
  shows "indexed (snd (revokeUserRefreshTokens uid w))"
proof (cases "user_token_keys w uid")
  case None
  then show ?thesis using ff ix by (simp add: revoke_user_no_set)
next
  case (Some p)
  obtain members ttl where p: "user_token_keys w uid = Some (members, ttl)"
    using Some by (cases p) simp
  obtain w' where r: "revokeUserRefreshTokens uid w = (Inr (), w')"
    and gone: "\<forall>k. k \<in> set members \<longrightarrow> refresh_keys w' k = None"
    and kept: "\<forall>k. k \<notin> set members \<longrightarrow> refresh_keys w' k = refresh_keys w k"
    and others: "\<forall>u. u \<noteq> uid \<longrightarrow> user_token_keys w' u = user_token_keys w u"
    using revoke_user_no_faults [OF ff p] by blast
  have "indexed w'"
    unfolding indexed_def
  proof (intro allI impI)
    fix token d ttl'
    assume a: "refresh_keys w' token = Some (d, ttl')"
    then have nm: "token \<notin> set members" using gone by auto
    then have b: "refresh_keys w token = Some (d, ttl')" using a kept by simp
    obtain ms tt where o: "user_token_keys w (userId d) = Some (ms, tt)" "token \<in> set ms"
      using ix b unfolding indexed_def by blast
    have "userId d \<noteq> uid" using o p nm by auto
    then show "\<exists>members ttl''. user_token_keys w' (userId d) = Some (members, ttl'') \<and> token \<in> set members"
      using o others by simp
  qed
  then show ?thesis using r by simp
qed

lemma indexed_logout:
  assumes "faults w = []" and "indexed w"
    and "faults (snd (blacklistAccessToken e a w)) = []"
  shows "indexed (snd (logout e uid a w))"
  using indexed_revoke_user [OF assms(3) indexed_blacklist [OF assms(2)], of uid]
  by (simp add: logout_order)

section \<open>Steps of two concurrent rotations\<close>

lemma flow_as_steps:
  "refresh_step e t opts (refresh_step e t opts (refresh_step e t opts
     (refresh_step e t opts (AtVerify, w))))
   = (Settled (fst (refreshToken_flow e t opts w)), snd (refreshToken_flow e t opts w))"
proof (cases "verifyRefreshToken t w")
  case (Pair v wv)
  obtain r where v: "v = Inr r"
    using verify_never_throws [of t w] Pair by auto
  show ?thesis
  proof (cases r)
    case None
    then show ?thesis using Pair v
      by (simp add: refresh_step_def refreshToken_flow_def io_defs)
  next
    case (Some td)
    show ?thesis
    proof (cases "users e (userId td)")
      case None
      then show ?thesis using Pair v Some
        by (simp add: refresh_step_def refreshToken_flow_def io_defs findOne_cases)
    next
      case (Some u)
      obtain w2 where rv: "revokeRefreshToken t wv = (Inr (), w2)"
        using revoke_never_throws [of t wv] by (cases "revokeRefreshToken t wv") simp
      show ?thesis using Pair v \<open>r = Some td\<close> Some rv
        by (cases "issueTokens e (user_id u) (user_role u) opts w2")
           (simp add: refresh_step_def refreshToken_flow_def io_defs findOne_cases)
    qed
  qed
qed







section \<open>The invariant along a rotation\<close>

lemma verify_state_no_faults:
  assumes "faults w = []"
  shows "snd (verifyRefreshToken t w) = w \<or> snd (verifyRefreshToken t w) = snd (revokeRefreshToken t w)"
  using assms revoke_never_throws [of t w]
  by (cases "revokeRefreshToken t w")
     (auto simp: verifyRefreshToken_def io_defs redis_get_refresh_def command_no_faults Let_def
        split: option.splits)

lemma indexed_verify:
  assumes "faults w = []" and "indexed w"
  shows "indexed (snd (verifyRefreshToken t w)) \<and> faults (snd (verifyRefreshToken t w)) = []"
  using verify_state_no_faults [OF assms(1), of t] assms indexed_revoke [OF assms, of t]
    revoke_keeps_faultfree [OF assms(1), of t]
  by auto

lemma generate_keeps_faultfree:
  assumes "faults w = []"
  shows "faults (snd (generateRefreshToken e uid r opts w)) = []"
  using assms by (rule generate_outcome(1))

lemma indexed_issue:
  assumes "faults w = []" and "indexed w"
  shows "indexed (snd (issueTokens e uid r opts w)) \<and> faults (snd (issueTokens e uid r opts w)) = []"
  using issue_snd [of e uid r opts w] assms indexed_generate [OF assms, of e uid r opts]
    generate_keeps_faultfree [OF assms(1), of e uid r opts]
  by auto

lemma indexed_rotation:
  assumes ff: "faults w = []" and ix: "indexed w"
  shows "indexed (snd (refreshToken_flow e t opts w))"
proof -
  let ?four = "refresh_step e t opts (refresh_step e t opts (refresh_step e t opts
     (refresh_step e t opts (AtVerify, w))))"
  have step: "indexed (snd (refresh_step e t opts (task, w'))) \<and> faults (snd (refresh_step e t opts (task, w'))) = []"
    if "faults w' = []" and "indexed w'" for task w'
  proof (cases task)
    case AtVerify
    then show ?thesis using indexed_verify [OF that, of t]
      by (cases "verifyRefreshToken t w'") (auto simp: refresh_step_def split: sum.splits option.splits)
  next
    case (AtFindOne td)
    then show ?thesis using that by (simp add: refresh_step_def findOne_cases split: option.splits)
  next
    case (AtRevoke u)
    then show ?thesis
      using indexed_revoke [OF that, of t] revoke_keeps_faultfree [OF that(1), of t]
      by (cases "revokeRefreshToken t w'") (auto simp: refresh_step_def split: sum.splits)
  next
    case (AtIssue u)
    then show ?thesis using indexed_issue [OF that, of e "user_id u" "user_role u" opts]
      by (cases "issueTokens e (user_id u) (user_role u) opts w'") (simp add: refresh_step_def)
  next
    case (Settled r)
    then show ?thesis using that by (simp add: refresh_step_def)
  qed
  have step': "indexed (snd (refresh_step e t opts cfg)) \<and> faults (snd (refresh_step e t opts cfg)) = []"
    if "faults (snd cfg) = []" and "indexed (snd cfg)" for cfg
    using step [of "snd cfg" "fst cfg"] that by simp
  have "indexed (snd ?four)"
    using ff ix by (intro step' [THEN conjunct1] step' [THEN conjunct2]) simp_all
  then show ?thesis by (simp add: flow_as_steps)
qed

section \<open>Refresh tokens: verification, revocation, rotation\<close>

lemma example_rotation:
  "fst (refreshToken_flow env0 ''t1'' None world0) =
     Inr \<lparr>dto_accessToken = ''jwt'', dto_refreshToken = ''u'', dto_expiresIn = Some 3600\<rparr>"
  by code_simp

lemma example_verify_t2: "fst (verifyRefreshToken ''t2'' world0) = Inr (Some data2)"
  by code_simp

text \<open>
  C4. \<open>verifyRefreshToken\<close> fails closed. With no record under the token it returns
  \<open>null\<close>. With a record whose \<open>expiresAt\<close> is before the clock it returns \<open>null\<close>, and
  when the store answers every command the record is gone afterwards. When the first
  command is rejected it returns \<open>null\<close> with the store as it was. It never throws,
  and whenever it returns a record, that record is stored under the token, is not
  expired, and the one command sent was answered.
\<close>

theorem verify_fail_closed:
  "(refresh_keys w t = None \<longrightarrow> fst (verifyRefreshToken t w) = Inr None)
 \<and> (\<forall>d ttl. refresh_keys w t = Some (d, ttl) \<and> expiresAt d < toSeconds (clock w) \<longrightarrow>
        fst (verifyRefreshToken t w) = Inr None
      \<and> (faults w = [] \<longrightarrow> refresh_keys (snd (verifyRefreshToken t w)) t = None))
 \<and> (\<forall>fs. faults w = True # fs \<longrightarrow> verifyRefreshToken t w = (Inr None, w\<lparr>faults := fs\<rparr>))
 \<and> (\<forall>x. fst (verifyRefreshToken t w) \<noteq> Inl x)
 \<and> (\<forall>d. fst (verifyRefreshToken t w) = Inr (Some d) \<longrightarrow>
        (\<exists>ttl. refresh_keys w t = Some (d, ttl)) \<and> \<not> expiresAt d < toSeconds (clock w)
      \<and> (faults w = [] \<or> (\<exists>fs. faults w = False # fs)))"
proof -
  have a: "refresh_keys w t = None \<longrightarrow> fst (verifyRefreshToken t w) = Inr None"
    by (simp add: verify_absent)
  have b: "\<forall>d ttl. refresh_keys w t = Some (d, ttl) \<and> expiresAt d < toSeconds (clock w) \<longrightarrow>
        fst (verifyRefreshToken t w) = Inr None
      \<and> (faults w = [] \<longrightarrow> refresh_keys (snd (verifyRefreshToken t w)) t = None)"
    using verify_expired verify_expired_deletes by blast
  have c: "\<forall>fs. faults w = True # fs \<longrightarrow> verifyRefreshToken t w = (Inr None, w\<lparr>faults := fs\<rparr>)"
    by (simp add: verify_store_error)
  have d: "\<forall>x. fst (verifyRefreshToken t w) \<noteq> Inl x"
    using verify_never_throws [of t w] by auto
  have e: "\<forall>d. fst (verifyRefreshToken t w) = Inr (Some d) \<longrightarrow>
        (\<exists>ttl. refresh_keys w t = Some (d, ttl)) \<and> \<not> expiresAt d < toSeconds (clock w)
      \<and> (faults w = [] \<or> (\<exists>fs. faults w = False # fs))"
    using verify_some [of t w] by blast
  show ?thesis using a b c d e by blast
qed

theorem verify_fail_closed_witness:
  "refresh_keys world0 ''none'' = None
 \<and> fst (verifyRefreshToken ''none'' world0) = Inr None
 \<and> refresh_keys world_late ''t1'' = Some (data1, 1100)
 \<and> expiresAt data1 < toSeconds (clock world_late)
 \<and> fst (verifyRefreshToken ''t1'' world_late) = Inr None
 \<and> refresh_keys (snd (verifyRefreshToken ''t1'' world_late)) ''t1'' = None
 \<and> verifyRefreshToken ''t1'' (world0\<lparr>faults := [True]\<rparr>) = (Inr None, world0\<lparr>faults := []\<rparr>)"
proof -
  have h1: "refresh_keys world0 ''none'' = None"
    by (simp add: world0_def)
  have h2: "refresh_keys world_late ''t1'' = Some (data1, 1100)"
    by (simp add: world_late_def world0_def)
  have h3: "expiresAt data1 < toSeconds (clock world_late)"
    by code_simp
  have h4: "faults world_late = []"
    by (simp add: world_late_def world0_def)
  have h5: "faults (world0\<lparr>faults := [True]\<rparr>) = True # []"
    by simp
  have c1: "fst (verifyRefreshToken ''none'' world0) = Inr None"
    using verify_fail_closed [of world0 "''none''"] h1 by blast
  have c2: "fst (verifyRefreshToken ''t1'' world_late) = Inr None
          \<and> refresh_keys (snd (verifyRefreshToken ''t1'' world_late)) ''t1'' = None"
    using verify_fail_closed [of world_late "''t1''"] h2 h3 h4 by blast
  have c3: "verifyRefreshToken ''t1'' (world0\<lparr>faults := [True]\<rparr>)
              = (Inr None, world0\<lparr>faults := [True], faults := []\<rparr>)"
    using verify_fail_closed [of "world0\<lparr>faults := [True]\<rparr>" "''t1''"] h5 by blast
  show ?thesis using h1 h2 h3 c1 c2 c3 by simp
qed



text \<open>
  C1 (as amended). Rotation is single-use when the store answered the revocation. Let a
  call of \<open>AuthService.refreshToken\<close> with the token \<open>t\<close> succeed, on a store that
  answers the first four commands of the call (the \<open>GET\<close> of the verification and the
  \<open>GET\<close>, \<open>SREM\<close> and \<open>DEL\<close> of the revocation), and let the identifier that the call
  draws for the new refresh token differ from \<open>t\<close>. Then a call with the same \<open>t\<close> on
  the state it left, at any later clock, with any options and whatever the store's
  faults, fails with \<open>UnauthorizedException(INVALID_REFRESH_TOKEN)\<close>.
\<close>

theorem rotation_single_use:
  assumes "accepted 4 w"
    and "randomUUID e (uuid_count w) \<noteq> t"
    and "refreshToken_flow e t opts w = (Inr r, w1)"
  shows "fst (refreshToken_flow e t opts' (w1\<lparr>clock := c, faults := fs\<rparr>))
           = Inl (UnauthorizedException INVALID_REFRESH_TOKEN)"
proof -
  have "refresh_keys w1 t = None" using assms by (rule flow_success_removes)
  then have "refresh_keys (w1\<lparr>clock := c, faults := fs\<rparr>) t = None" by simp
  then show ?thesis by (rule flow_absent)
qed

theorem rotation_single_use_witness:
  "accepted 4 (world0\<lparr>faults := [False, False, False, False, True]\<rparr>)
 \<and> randomUUID env0 (uuid_count (world0\<lparr>faults := [False, False, False, False, True]\<rparr>)) \<noteq> ''t1''
 \<and> fst (refreshToken_flow env0 ''t1'' None (world0\<lparr>faults := [False, False, False, False, True]\<rparr>))
      = Inl StoreError
 \<and> accepted 4 world0
 \<and> randomUUID env0 (uuid_count world0) \<noteq> ''t1''
 \<and> fst (refreshToken_flow env0 ''t1'' None world0)
      = Inr \<lparr>dto_accessToken = ''jwt'', dto_refreshToken = ''u'', dto_expiresIn = Some 3600\<rparr>
 \<and> fst (refreshToken_flow env0 ''t1'' None
          ((snd (refreshToken_flow env0 ''t1'' None world0))\<lparr>clock := 1500000, faults := [False]\<rparr>))
      = Inl (UnauthorizedException INVALID_REFRESH_TOKEN)"
proof -
  have h0: "accepted 4 (world0\<lparr>faults := [False, False, False, False, True]\<rparr>)"
    by (simp add: accepted_def eval_nat_numeral)
  have h0': "fst (refreshToken_flow env0 ''t1'' None (world0\<lparr>faults := [False, False, False, False, True]\<rparr>))
      = Inl StoreError"
    by code_simp
  have h1: "accepted 4 world0" by (simp add: accepted_def world0_def)
  have h2: "randomUUID env0 (uuid_count world0) \<noteq> ''t1''"
    by (simp add: env0_def world0_def)
  have h3: "refreshToken_flow env0 ''t1'' None world0
      = (Inr \<lparr>dto_accessToken = ''jwt'', dto_refreshToken = ''u'', dto_expiresIn = Some 3600\<rparr>,
         snd (refreshToken_flow env0 ''t1'' None world0))"
    using example_rotation by (cases "refreshToken_flow env0 ''t1'' None world0") simp
  show ?thesis
    using rotation_single_use [OF h1 h2 h3, where opts' = None and c = 1500000 and fs = "[False]"]
      h0 h0' h1 h2 example_rotation
    by simp
qed

text \<open>
  C1 as stated fails in two ways. With the \<open>GET\<close> of the revocation rejected (the second
  command), or its \<open>DEL\<close> (the fourth), \<open>revokeRefreshToken\<close> swallows the error, the
  rotation of \<open>t1\<close> succeeds, and a second rotation with \<open>t1\<close> succeeds as well. And when
  the identifier drawn for the new token is \<open>t1\<close> itself, the first rotation stores \<open>t1\<close>
  again and the second succeeds.
\<close>

theorem rotation_reuse_counterexample:
  "fst (refreshToken_flow env0 ''t1'' None (world0\<lparr>faults := [False, True]\<rparr>))
     = Inr \<lparr>dto_accessToken = ''jwt'', dto_refreshToken = ''u'', dto_expiresIn = Some 3600\<rparr>
 \<and> fst (refreshToken_flow env0 ''t1'' None
          (snd (refreshToken_flow env0 ''t1'' None (world0\<lparr>faults := [False, True]\<rparr>))))
     = Inr \<lparr>dto_accessToken = ''jwt'', dto_refreshToken = ''uu'', dto_expiresIn = Some 3600\<rparr>
 \<and> fst (refreshToken_flow env0 ''t1'' None (world0\<lparr>faults := [False, False, False, True]\<rparr>))
     = Inr \<lparr>dto_accessToken = ''jwt'', dto_refreshToken = ''u'', dto_expiresIn = Some 3600\<rparr>
 \<and> fst (refreshToken_flow env0 ''t1'' None
          (snd (refreshToken_flow env0 ''t1'' None (world0\<lparr>faults := [False, False, False, True]\<rparr>))))
     = Inr \<lparr>dto_accessToken = ''jwt'', dto_refreshToken = ''uu'', dto_expiresIn = Some 3600\<rparr>
 \<and> fst (refreshToken_flow env_collide ''t1'' None world0)
     = Inr \<lparr>dto_accessToken = ''jwt'', dto_refreshToken = ''t1'', dto_expiresIn = Some 3600\<rparr>
 \<and> fst (refreshToken_flow env_collide ''t1'' None
          (snd (refreshToken_flow env_collide ''t1'' None world0)))
     = Inr \<lparr>dto_accessToken = ''jwt'', dto_refreshToken = ''u'', dto_expiresIn = Some 3600\<rparr>"
proof -
  have a': "fst (refreshToken_flow env0 ''t1'' None (world0\<lparr>faults := [False, False, False, True]\<rparr>))
     = Inr \<lparr>dto_accessToken = ''jwt'', dto_refreshToken = ''u'', dto_expiresIn = Some 3600\<rparr>"
    by code_simp
  have b': "fst (refreshToken_flow env0 ''t1'' None
          (snd (refreshToken_flow env0 ''t1'' None (world0\<lparr>faults := [False, False, False, True]\<rparr>))))
     = Inr \<lparr>dto_accessToken = ''jwt'', dto_refreshToken = ''uu'', dto_expiresIn = Some 3600\<rparr>"
    by code_simp
  have a: "fst (refreshToken_flow env0 ''t1'' None (world0\<lparr>faults := [False, True]\<rparr>))
     = Inr \<lparr>dto_accessToken = ''jwt'', dto_refreshToken = ''u'', dto_expiresIn = Some 3600\<rparr>"
    by code_simp
  have b: "fst (refreshToken_flow env0 ''t1'' None
          (snd (refreshToken_flow env0 ''t1'' None (world0\<lparr>faults := [False, True]\<rparr>))))
     = Inr \<lparr>dto_accessToken = ''jwt'', dto_refreshToken = ''uu'', dto_expiresIn = Some 3600\<rparr>"
    by code_simp
  have c: "fst (refreshToken_flow env_collide ''t1'' None world0)
     = Inr \<lparr>dto_accessToken = ''jwt'', dto_refreshToken = ''t1'', dto_expiresIn = Some 3600\<rparr>"
    by code_simp
  have d: "fst (refreshToken_flow env_collide ''t1'' None
          (snd (refreshToken_flow env_collide ''t1'' None world0)))
     = Inr \<lparr>dto_accessToken = ''jwt'', dto_refreshToken = ''u'', dto_expiresIn = Some 3600\<rparr>"
    by code_simp
  show ?thesis using a b a' b' c d by blast
qed

text \<open>
  C10. When the presented token verifies and the users table has no row for its
  owner, \<open>AuthService.refreshToken\<close> fails with the \<open>NotFoundException\<close> of the lookup
  and revokes nothing: the three kinds of keys are as before, and the same token
  verifies again at the same clock when the store answers.
\<close>

theorem rotation_keeps_token_when_user_missing:
  assumes "fst (verifyRefreshToken t w) = Inr (Some td)"
    and "users e (userId td) = None"
  shows "fst (refreshToken_flow e t opts w) = Inl (NotFoundException NOT_FOUND_WITH_ID)
       \<and> refresh_keys (snd (refreshToken_flow e t opts w)) = refresh_keys w
       \<and> user_token_keys (snd (refreshToken_flow e t opts w)) = user_token_keys w
       \<and> blacklist_keys (snd (refreshToken_flow e t opts w)) = blacklist_keys w
       \<and> verifyRefreshToken t ((snd (refreshToken_flow e t opts w))\<lparr>faults := []\<rparr>)
           = (Inr (Some td), (snd (refreshToken_flow e t opts w))\<lparr>faults := []\<rparr>)"
proof -
  obtain wv where v: "verifyRefreshToken t w = (Inr (Some td), wv)"
    using assms(1) by (cases "verifyRefreshToken t w") simp
  have s: "(\<exists>ttl. refresh_keys w t = Some (td, ttl)) \<and> \<not> expiresAt td < toSeconds (clock w)
       \<and> wv = w\<lparr>faults := tl (faults w)\<rparr>"
    using verify_some [OF assms(1)] v by simp
  have flow: "refreshToken_flow e t opts w = (Inl (NotFoundException NOT_FOUND_WITH_ID), wv)"
    using v assms(2) by (simp add: refreshToken_flow_def io_defs findOne_cases)
  obtain ttl where rec: "refresh_keys w t = Some (td, ttl)" using s by blast
  have "verifyRefreshToken t (wv\<lparr>faults := []\<rparr>) = (Inr (Some td), wv\<lparr>faults := []\<rparr>)"
    using s rec by (intro verify_live [where ttl = ttl]) simp_all
  then show ?thesis using flow s by simp
qed

theorem rotation_keeps_token_when_user_missing_witness:
  "fst (verifyRefreshToken ''t2'' world0) = Inr (Some data2)
 \<and> users env0 (userId data2) = None
 \<and> fst (refreshToken_flow env0 ''t2'' None world0) = Inl (NotFoundException NOT_FOUND_WITH_ID)
 \<and> refresh_keys (snd (refreshToken_flow env0 ''t2'' None world0)) = refresh_keys world0
 \<and> fst (verifyRefreshToken ''t2'' ((snd (refreshToken_flow env0 ''t2'' None world0))\<lparr>faults := []\<rparr>))
      = Inr (Some data2)"
proof -
  have h2: "users env0 (userId data2) = None" by (simp add: env0_def data2_def)
  show ?thesis
    using rotation_keeps_token_when_user_missing [OF example_verify_t2 h2, of None]
      example_verify_t2 h2
    by simp
qed

section \<open>Blacklist and logout\<close>




text \<open>
  C2 (as amended). \<open>logout\<close> is \<open>blacklistAccessToken\<close> followed by
  \<open>revokeUserRefreshTokens\<close> on the state it leaves, and never throws.

  The access token: let its expiry read be after the clock, or not readable while the
  configured lifetime is positive. When the store answers the first command of the
  call, the marker is in the store after \<open>logout\<close>, whatever happens to the commands of
  the revocation, and \<open>isAccessTokenBlacklisted\<close> returns true whenever the store
  answers its \<open>EXISTS\<close>. When the expiry read is not after the clock and the token
  had no marker, it has none after \<open>logout\<close> and \<open>isAccessTokenBlacklisted\<close> returns
  false.

  The refresh tokens: when the store answers every command of the call,
  \<open>verifyRefreshToken\<close> returns \<open>null\<close> afterwards, at any later clock and under any
  faults, for every member of the user's token set, hence, in a store where every
  record is in the set of its owner, for every stored refresh token of the user.
\<close>

theorem logout_invalidates:
  "logout e uid a w = revokeUserRefreshTokens uid (snd (blacklistAccessToken e a w))
 \<and> fst (logout e uid a w) = Inr ()
 \<and> (accepted 1 w
      \<and> (case expiry_claim e a of
            Some x \<Rightarrow> clock w div 1000 < x
          | None \<Rightarrow> (case accessTokenExpirationSeconds e of Some n \<Rightarrow> 0 < n | None \<Rightarrow> False)) \<longrightarrow>
      blacklist_keys (snd (logout e uid a w)) a \<noteq> None
    \<and> (\<forall>fs. accepted 1 ((snd (logout e uid a w))\<lparr>faults := fs\<rparr>) \<longrightarrow>
          fst (isAccessTokenBlacklisted a ((snd (logout e uid a w))\<lparr>faults := fs\<rparr>)) = Inr True))
 \<and> (\<forall>x. expiry_claim e a = Some x \<and> x \<le> clock w div 1000 \<and> blacklist_keys w a = None \<longrightarrow>
        blacklist_keys (snd (logout e uid a w)) a = None
      \<and> fst (isAccessTokenBlacklisted a (snd (logout e uid a w))) = Inr False)
 \<and> (faults w = [] \<longrightarrow>
      (\<forall>tok members ttl c fs.
          user_token_keys w uid = Some (members, ttl) \<and> tok \<in> set members \<longrightarrow>
          fst (verifyRefreshToken tok ((snd (logout e uid a w))\<lparr>clock := c, faults := fs\<rparr>))
            = Inr None))
 \<and> (faults w = [] \<and> indexed w \<longrightarrow>
      (\<forall>tok d ttl c fs.
          refresh_keys w tok = Some (d, ttl) \<and> userId d = uid \<longrightarrow>
          fst (verifyRefreshToken tok ((snd (logout e uid a w))\<lparr>clock := c, faults := fs\<rparr>))
            = Inr None))"
proof -
  let ?wl = "snd (logout e uid a w)"
  have order: "logout e uid a w = revokeUserRefreshTokens uid (snd (blacklistAccessToken e a w))"
    by (rule logout_order)
  have never: "fst (logout e uid a w) = Inr ()"
    using order by (simp add: revoke_user_never_throws)
  have marked: "blacklist_keys ?wl a \<noteq> None
      \<and> (\<forall>fs. accepted 1 (?wl\<lparr>faults := fs\<rparr>) \<longrightarrow>
            fst (isAccessTokenBlacklisted a (?wl\<lparr>faults := fs\<rparr>)) = Inr True)"
    if acc: "accepted 1 w"
      and ok: "case expiry_claim e a of
                 Some x \<Rightarrow> clock w div 1000 < x
               | None \<Rightarrow> (case accessTokenExpirationSeconds e of Some n \<Rightarrow> 0 < n | None \<Rightarrow> False)"
  proof -
    have m: "blacklist_keys ?wl a \<noteq> None" using acc ok by (rule logout_marked)
    have "fst (isAccessTokenBlacklisted a (?wl\<lparr>faults := fs\<rparr>)) = Inr True"
      if "accepted 1 (?wl\<lparr>faults := fs\<rparr>)" for fs
      using is_blacklisted_accepted [OF that, of a] m by simp
    then show ?thesis using m by blast
  qed
  have expired: "blacklist_keys ?wl a = None \<and> fst (isAccessTokenBlacklisted a ?wl) = Inr False"
    if "expiry_claim e a = Some x" and "x \<le> clock w div 1000" and "blacklist_keys w a = None" for x
  proof -
    have "blacklist_keys ?wl a = None" using that by (rule logout_expired_unmarked)
    then show ?thesis by (simp add: is_blacklisted_absent)
  qed
  have dead: "fst (verifyRefreshToken tok (?wl\<lparr>clock := c, faults := fs\<rparr>)) = Inr None"
    if ff: "faults w = []" and set: "user_token_keys w uid = Some (members, ttl)"
      and mem: "tok \<in> set members"
    for tok members ttl c fs
    using logout_removes_members [OF ff set mem, of e a] by (intro verify_absent) simp
  have owned: "fst (verifyRefreshToken tok (?wl\<lparr>clock := c, faults := fs\<rparr>)) = Inr None"
    if ff: "faults w = []" and ix: "indexed w"
      and rec: "refresh_keys w tok = Some (d, ttl)" and own: "userId d = uid"
    for tok d ttl c fs
  proof -
    obtain members ttl' where "user_token_keys w uid = Some (members, ttl')" "tok \<in> set members"
      using ix rec own unfolding indexed_def by blast
    then show ?thesis using dead [OF ff] by blast
  qed
  show ?thesis
    apply (intro conjI)
         apply (rule order)
        apply (rule never)
       apply (use marked in blast)
      apply (use expired in blast)
     apply (use dead in blast)
    apply (use owned in blast)
    done
qed

lemma example_indexed: "indexed world0"
  by (auto simp: indexed_def world0_def data1_def data2_def split: if_splits)

theorem logout_invalidates_witness:
  "accepted 1 (world0\<lparr>faults := [False, True, True, True]\<rparr>)
 \<and> expiry_claim env0 ''live'' = Some 5000
 \<and> clock (world0\<lparr>faults := [False, True, True, True]\<rparr>) div 1000 < 5000
 \<and> blacklist_keys (snd (logout env0 1 ''live'' (world0\<lparr>faults := [False, True, True, True]\<rparr>))) ''live''
      \<noteq> None
 \<and> fst (isAccessTokenBlacklisted ''live''
          ((snd (logout env0 1 ''live'' (world0\<lparr>faults := [False, True, True, True]\<rparr>)))\<lparr>faults := []\<rparr>))
      = Inr True
 \<and> expiry_claim env0 ''old'' = Some 100 \<and> 100 \<le> clock world0 div 1000
 \<and> blacklist_keys world0 ''old'' = None
 \<and> fst (isAccessTokenBlacklisted ''old'' (snd (logout env0 1 ''old'' world0))) = Inr False
 \<and> faults world0 = [] \<and> indexed world0
 \<and> user_token_keys world0 1 = Some ([''t1''], Some 1100)
 \<and> refresh_keys world0 ''t1'' = Some (data1, 1100) \<and> userId data1 = 1
 \<and> fst (logout env0 1 ''live'' world0) = Inr ()
 \<and> fst (verifyRefreshToken ''t1'' ((snd (logout env0 1 ''live'' world0))\<lparr>clock := 1000001, faults := []\<rparr>))
      = Inr None"
proof -
  let ?wf = "world0\<lparr>faults := [False, True, True, True]\<rparr>"
  have g1: "accepted 1 ?wf" by (simp add: accepted_def)
  have g2: "clock ?wf div 1000 = 1000" by (simp add: world0_def)
  have h1: "faults world0 = []" and h2: "clock world0 div 1000 = 1000"
    and h3: "user_token_keys world0 1 = Some ([''t1''], Some 1100)"
    and h4: "refresh_keys world0 ''t1'' = Some (data1, 1100)"
    and h8: "blacklist_keys world0 ''old'' = None"
    by (simp_all add: world0_def)
  have h5: "expiry_claim env0 ''live'' = Some 5000" and h9: "expiry_claim env0 ''old'' = Some 100"
    by (simp_all add: expiry_claim_def env0_def truthy_exp_def)
  have h6: "userId data1 = 1" by (simp add: data1_def)
  have g3: "case expiry_claim env0 ''live'' of
              Some x \<Rightarrow> clock ?wf div 1000 < x
            | None \<Rightarrow> (case accessTokenExpirationSeconds env0 of Some n \<Rightarrow> 0 < n | None \<Rightarrow> False)"
    using g2 h5 by simp
  have g4: "accepted 1 ((snd (logout env0 1 ''live'' ?wf))\<lparr>faults := []\<rparr>)"
    by (simp add: accepted_def)
  have g5: "100 \<le> clock world0 div 1000" using h2 by simp
  have c1: "blacklist_keys (snd (logout env0 1 ''live'' ?wf)) ''live'' \<noteq> None
          \<and> fst (isAccessTokenBlacklisted ''live'' ((snd (logout env0 1 ''live'' ?wf))\<lparr>faults := []\<rparr>))
              = Inr True"
    using logout_invalidates [of env0 1 "''live''" ?wf] g1 g3 g4 by blast
  have c2: "fst (isAccessTokenBlacklisted ''old'' (snd (logout env0 1 ''old'' world0))) = Inr False"
    using logout_invalidates [of env0 1 "''old''" world0] h9 g5 h8 by blast
  have c3: "fst (logout env0 1 ''live'' world0) = Inr ()
      \<and> fst (verifyRefreshToken ''t1''
            ((snd (logout env0 1 ''live'' world0))\<lparr>clock := 1000001, faults := []\<rparr>)) = Inr None"
    using logout_invalidates [of env0 1 "''live''" world0] h1 example_indexed h4 h6 by blast
  show ?thesis using g1 g2 h1 h2 h3 h4 h5 h6 h8 h9 example_indexed c1 c2 c3 by simp
qed

text \<open>
  C2 as stated fails in six ways. With the expired token \<open>old\<close>, the store answering,
  \<open>isAccessTokenBlacklisted\<close> returns false after \<open>logout\<close>. In \<open>world_orphan\<close> the store
  answers every command, the record of the refresh token \<open>t1\<close> of user 1 is stored but
  is not in the set of user 1, and \<open>t1\<close> verifies after \<open>logout\<close>. When the \<open>DEL\<close> of the
  record of \<open>t1\<close> is rejected during \<open>logout\<close> (the third command), \<open>t1\<close> verifies
  afterwards. When both \<open>SETEX\<close> of the blacklisting are rejected there is no marker,
  and when the \<open>EXISTS\<close> of the check is rejected it returns false although the marker
  is stored. With the lifetime configured as \<open>0s\<close>, the token \<open>forged\<close>, which has no
  readable expiry, gets no marker.
\<close>

theorem logout_expired_counterexample:
  "faults world0 = []
 \<and> fst (logout env0 1 ''old'' world0) = Inr ()
 \<and> fst (isAccessTokenBlacklisted ''old'' (snd (logout env0 1 ''old'' world0))) = Inr False
 \<and> faults world_orphan = []
 \<and> refresh_keys world_orphan ''t1'' = Some (data1, 1100) \<and> userId data1 = 1
 \<and> user_token_keys world_orphan 1 = None
 \<and> fst (verifyRefreshToken ''t1'' (snd (logout env0 1 ''live'' world_orphan))) = Inr (Some data1)
 \<and> fst (verifyRefreshToken ''t1''
          (snd (logout env0 1 ''live'' (world0\<lparr>faults := [False, False, True]\<rparr>)))) = Inr (Some data1)
 \<and> fst (isAccessTokenBlacklisted ''live''
          (snd (logout env0 1 ''live'' (world0\<lparr>faults := [True, True]\<rparr>)))) = Inr False
 \<and> blacklist_keys (snd (logout env0 1 ''live'' world0)) ''live'' = Some (''1'', 4000)
 \<and> fst (isAccessTokenBlacklisted ''live''
          ((snd (logout env0 1 ''live'' world0))\<lparr>faults := [True]\<rparr>)) = Inr False
 \<and> fst (isAccessTokenBlacklisted ''forged''
          (snd (logout (env0\<lparr>accessExpiresIn := ''0s''\<rparr>) 1 ''forged'' world0))) = Inr False"
proof -
  have a: "faults world0 = []" by (simp add: world0_def)
  have b: "fst (logout env0 1 ''old'' world0) = Inr ()" by code_simp
  have c: "fst (isAccessTokenBlacklisted ''old'' (snd (logout env0 1 ''old'' world0))) = Inr False"
    by code_simp
  have d: "faults world_orphan = []" by code_simp
  have e: "refresh_keys world_orphan ''t1'' = Some (data1, 1100)" by code_simp
  have f: "userId data1 = 1" by (simp add: data1_def)
  have g: "user_token_keys world_orphan 1 = None" by code_simp
  have h: "fst (verifyRefreshToken ''t1'' (snd (logout env0 1 ''live'' world_orphan)))
             = Inr (Some data1)"
    by code_simp
  have i: "fst (verifyRefreshToken ''t1''
          (snd (logout env0 1 ''live'' (world0\<lparr>faults := [False, False, True]\<rparr>)))) = Inr (Some data1)"
    by code_simp
  have j: "fst (isAccessTokenBlacklisted ''live''
          (snd (logout env0 1 ''live'' (world0\<lparr>faults := [True, True]\<rparr>)))) = Inr False"
    by code_simp
  have k: "blacklist_keys (snd (logout env0 1 ''live'' world0)) ''live'' = Some (''1'', 4000)"
    by code_simp
  have l: "fst (isAccessTokenBlacklisted ''live''
          ((snd (logout env0 1 ''live'' world0))\<lparr>faults := [True]\<rparr>)) = Inr False"
    by code_simp
  have m: "fst (isAccessTokenBlacklisted ''forged''
          (snd (logout (env0\<lparr>accessExpiresIn := ''0s''\<rparr>) 1 ''forged'' world0))) = Inr False"
    by code_simp
  show ?thesis using a b c d e f g h i j k l m by blast
qed

section \<open>The check of a request\<close>

lemma validate_revoked:
  assumes "bearer req = Some tok" and "tok \<noteq> []" and "accepted 1 w"
    and "blacklist_keys w tok \<noteq> None"
  shows "validate e req p w
           = (Inl (UnauthorizedException TOKEN_REVOKED), w\<lparr>faults := tl (faults w)\<rparr>)"
  using assms(1,2,4)
  by (simp add: validate_def io_defs is_blacklisted_accepted [OF assms(3)])

lemma authenticate_unverified:
  assumes "bearer req = Some tok" and "tok \<noteq> []" and "jwt_verify e tok (clock w) = Inl err"
  shows "authenticate e req w = (Inl err, w)"
  using assms by (simp add: authenticate_def)

lemma authenticate_verified:
  assumes "bearer req = Some tok" and "tok \<noteq> []" and "jwt_verify e tok (clock w) = Inr p"
  shows "authenticate e req w = validate e req p w"
  using assms by (simp add: authenticate_def)

text \<open>
  C6 (as amended). Passport verifies the signature and the claims of the bearer token
  before it calls \<open>validate\<close>: a token that does not verify is rejected with the
  verification error and no command reaches the store, so the blacklist is not
  consulted. For a token that verifies, \<open>validate\<close> checks the blacklist before
  it resolves the subject: when the store answers the \<open>EXISTS\<close> command, a blacklisted
  token fails with \<open>UnauthorizedException(TOKEN_REVOKED)\<close> whatever the users table
  holds, and that command is the only one sent.
\<close>

theorem blacklist_before_subject:
  "(\<forall>tok. bearer req = Some tok \<and> tok \<noteq> [] \<and> accepted 1 w \<and> blacklist_keys w tok \<noteq> None \<longrightarrow>
       validate e req p w
         = (Inl (UnauthorizedException TOKEN_REVOKED), w\<lparr>faults := tl (faults w)\<rparr>))
 \<and> (\<forall>tok err. bearer req = Some tok \<and> tok \<noteq> [] \<and> jwt_verify e tok (clock w) = Inl err \<longrightarrow>
       authenticate e req w = (Inl err, w))
 \<and> (\<forall>tok p'. bearer req = Some tok \<and> tok \<noteq> [] \<and> jwt_verify e tok (clock w) = Inr p'
        \<and> accepted 1 w \<and> blacklist_keys w tok \<noteq> None \<longrightarrow>
       authenticate e req w
         = (Inl (UnauthorizedException TOKEN_REVOKED), w\<lparr>faults := tl (faults w)\<rparr>))"
  by (simp add: validate_revoked authenticate_unverified authenticate_verified)

lemma example_marked:
  "faults world_marked = [] \<and> blacklist_keys world_marked ''forged'' = Some (''1'', 3600)
 \<and> blacklist_keys world_marked ''live'' = None \<and> clock world_marked = 1000000"
  by code_simp

lemma example_live_marked:
  "faults world_live_marked = [] \<and> blacklist_keys world_live_marked ''live'' = Some (''1'', 4000)
 \<and> clock world_live_marked = 1000000"
  by code_simp

theorem blacklist_before_subject_witness:
  "accepted 1 world_marked
 \<and> blacklist_keys world_marked ''forged'' \<noteq> None
 \<and> validate (env0\<lparr>users := Map.empty\<rparr>) \<lparr>bearer = Some ''forged''\<rparr> \<lparr>sub = 1, payload_role = USER\<rparr> world_marked
      = (Inl (UnauthorizedException TOKEN_REVOKED), world_marked)
 \<and> jwt_verify env0 ''old'' (clock world_marked) = Inl (JwtError ''jwt expired'')
 \<and> authenticate env0 \<lparr>bearer = Some ''old''\<rparr> world_marked = (Inl (JwtError ''jwt expired''), world_marked)
 \<and> jwt_verify env0 ''live'' (clock (world_live_marked\<lparr>faults := [False, True]\<rparr>))
      = Inr \<lparr>sub = 1, payload_role = USER\<rparr>
 \<and> accepted 1 (world_live_marked\<lparr>faults := [False, True]\<rparr>)
 \<and> blacklist_keys (world_live_marked\<lparr>faults := [False, True]\<rparr>) ''live'' \<noteq> None
 \<and> authenticate env0 \<lparr>bearer = Some ''live''\<rparr> (world_live_marked\<lparr>faults := [False, True]\<rparr>)
      = (Inl (UnauthorizedException TOKEN_REVOKED), world_live_marked\<lparr>faults := [True]\<rparr>)"
proof -
  let ?wl = "world_live_marked\<lparr>faults := [False, True]\<rparr>"
  have f: "faults world_marked = []" using example_marked by simp
  have h1: "accepted 1 world_marked" using f by (simp add: accepted_def)
  have h2: "blacklist_keys world_marked ''forged'' \<noteq> None"
    using example_marked by simp
  have h3: "jwt_verify env0 ''old'' (clock world_marked) = Inl (JwtError ''jwt expired'')"
    by (simp add: env0_def)
  have h4: "bearer \<lparr>bearer = Some ''forged''\<rparr> = Some ''forged'' \<and> ''forged'' \<noteq> []"
    and h5: "bearer \<lparr>bearer = Some ''old''\<rparr> = Some ''old'' \<and> ''old'' \<noteq> []"
    and h6: "bearer \<lparr>bearer = Some ''live''\<rparr> = Some ''live'' \<and> ''live'' \<noteq> []"
    by simp_all
  have h7: "jwt_verify env0 ''live'' (clock ?wl) = Inr \<lparr>sub = 1, payload_role = USER\<rparr>"
    by (simp add: env0_def)
  have h8: "accepted 1 ?wl" by (simp add: accepted_def)
  have h9: "blacklist_keys ?wl ''live'' \<noteq> None" using example_live_marked by simp
  have e1: "world_marked\<lparr>faults := tl (faults world_marked)\<rparr> = world_marked"
    using f by simp
  have e2: "?wl\<lparr>faults := tl (faults ?wl)\<rparr> = world_live_marked\<lparr>faults := [True]\<rparr>"
    by simp
  have c1: "validate (env0\<lparr>users := Map.empty\<rparr>) \<lparr>bearer = Some ''forged''\<rparr>
              \<lparr>sub = 1, payload_role = USER\<rparr> world_marked
            = (Inl (UnauthorizedException TOKEN_REVOKED),
               world_marked\<lparr>faults := tl (faults world_marked)\<rparr>)"
    using blacklist_before_subject [of "\<lparr>bearer = Some ''forged''\<rparr>" world_marked
        "env0\<lparr>users := Map.empty\<rparr>" "\<lparr>sub = 1, payload_role = USER\<rparr>"] h1 h2 h4
    by blast
  have c2: "authenticate env0 \<lparr>bearer = Some ''old''\<rparr> world_marked
            = (Inl (JwtError ''jwt expired''), world_marked)"
    using blacklist_before_subject [of "\<lparr>bearer = Some ''old''\<rparr>" world_marked env0] h3 h5
    by blast
  have c3: "authenticate env0 \<lparr>bearer = Some ''live''\<rparr> ?wl
            = (Inl (UnauthorizedException TOKEN_REVOKED), ?wl\<lparr>faults := tl (faults ?wl)\<rparr>)"
    using blacklist_before_subject [of "\<lparr>bearer = Some ''live''\<rparr>" ?wl env0] h6 h7 h8 h9
    by blast
  show ?thesis using h1 h2 h3 h7 h8 h9 c1 c2 c3 unfolding e1 e2 by simp
qed

text \<open>
  C6 as stated fails in two ways. The token \<open>forged\<close> is in the blacklist of
  \<open>world_marked\<close> and has a bad signature; the request is rejected with the
  verification error, not with \<open>TOKEN_REVOKED\<close>. The token \<open>live\<close> verifies and is in
  the blacklist of \<open>world_live_marked\<close>; when the \<open>EXISTS\<close> command is rejected,
  \<open>isAccessTokenBlacklisted\<close> returns false and the request is authenticated.
\<close>

theorem blacklisted_invalid_counterexample:
  "fst (isAccessTokenBlacklisted ''forged'' world_marked) = Inr True
 \<and> jwt_verify env0 ''forged'' (clock world_marked) = Inl (JwtError ''invalid signature'')
 \<and> fst (authenticate env0 \<lparr>bearer = Some ''forged''\<rparr> world_marked) = Inl (JwtError ''invalid signature'')
 \<and> fst (authenticate env0 \<lparr>bearer = Some ''forged''\<rparr> world_marked)
      \<noteq> Inl (UnauthorizedException TOKEN_REVOKED)
 \<and> blacklist_keys world_live_marked ''live'' = Some (''1'', 4000)
 \<and> fst (isAccessTokenBlacklisted ''live'' (world_live_marked\<lparr>faults := [True]\<rparr>)) = Inr False
 \<and> fst (authenticate env0 \<lparr>bearer = Some ''live''\<rparr> (world_live_marked\<lparr>faults := [True]\<rparr>))
      = Inr (toSafeEntity alice)"
proof -
  have a: "fst (isAccessTokenBlacklisted ''forged'' world_marked) = Inr True" by code_simp
  have b: "jwt_verify env0 ''forged'' (clock world_marked) = Inl (JwtError ''invalid signature'')"
    by (simp add: env0_def)
  have c: "fst (authenticate env0 \<lparr>bearer = Some ''forged''\<rparr> world_marked)
             = Inl (JwtError ''invalid signature'')"
    by code_simp
  have d: "blacklist_keys world_live_marked ''live'' = Some (''1'', 4000)" by code_simp
  have e: "fst (isAccessTokenBlacklisted ''live'' (world_live_marked\<lparr>faults := [True]\<rparr>)) = Inr False"
    by code_simp
  have f: "fst (authenticate env0 \<lparr>bearer = Some ''live''\<rparr> (world_live_marked\<lparr>faults := [True]\<rparr>))
      = Inr (toSafeEntity alice)"
    by code_simp
  show ?thesis using a b c d e f by simp
qed

section \<open>Concurrent rotation and the reported lifetime\<close>






text \<open>
  C8. With the access-token lifetime configured as the bare integer string \<open>900\<close>,
  \<open>issueTokens\<close> reports \<open>expiresIn = 900\<close>; the same string is what the module hands
  to the signer as its \<open>expiresIn\<close> option.
\<close>

theorem reported_expiry_bare_integer:
  "parseExpiresToSeconds ''900'' = Some 900
 \<and> fst (issueTokens (env0\<lparr>accessExpiresIn := ''900''\<rparr>) 1 USER None world0)
      = Inr \<lparr>dto_accessToken = ''jwt'', dto_refreshToken = ''u'', dto_expiresIn = Some 900\<rparr>"
  by code_simp

end
